theory Spec2Isabelle
  imports Complex_Main
begin

section \<open>Min-cut edit-region segmentation of Vox-E (refinement_functions.py)\<close>

text \<open>
  The development embeds \<^verbatim>\<open>gen_id\<close>, \<^verbatim>\<open>build_graph\<close>,
  \<^verbatim>\<open>set_and_visualize_refined_grid\<close> and \<^verbatim>\<open>get_edit_region\<close> of
  \<^verbatim>\<open>thre3d_atom/modules/refinement_functions.py\<close>.
  Integer index tensors are modelled over \<open>int\<close>. Float tensors hold reals; the
  arithmetic of the edge weights (feature distance, affinity, sigmoid of the features) is
  float32 arithmetic, each operation rounding its exact result, while the attention
  probabilities, which are only compared with each other, are kept exact. Infinities and
  NaN are not modelled. Every place where torch or Python raises is a branch returning an
  error.
\<close>

subsection \<open>Errors and tensors\<close>

datatype error = AssertionError | RuntimeError | IndexError | KeyError

type_synonym coord = "int \<times> int \<times> int"

text \<open>
  A scalar field of the voxel grid: a tensor of shape \<open>(X, Y, Z, 1)\<close>, as the densities
  and the attention field of the voxel-grid representation are. The accessor is only ever
  read inside the shape.
\<close>

record sgrid =
  sx :: nat
  sy :: nat
  sz :: nat
  sval :: "int \<Rightarrow> int \<Rightarrow> int \<Rightarrow> real"

text \<open>The feature field: a tensor of shape \<open>(X, Y, Z, C)\<close>.\<close>

record fgrid =
  fx :: nat
  fy :: nat
  fz :: nat
  fc :: nat
  fval :: "int \<Rightarrow> int \<Rightarrow> int \<Rightarrow> nat \<Rightarrow> real"

text \<open>The fields of \<^verbatim>\<open>VolumetricModel.thre3d_repr\<close> that the segmentation reads and writes.\<close>

record vol_mod =
  densities :: sgrid
  features :: fgrid
  attn :: sgrid

definition sshape :: "sgrid \<Rightarrow> nat \<times> nat \<times> nat" where
  "sshape t = (sx t, sy t, sz t)"

definition sat :: "sgrid \<Rightarrow> coord \<Rightarrow> real" where
  "sat t c = (case c of (a, b, c') \<Rightarrow> sval t a b c')"

definition fvec :: "fgrid \<Rightarrow> coord \<Rightarrow> real list" where
  "fvec t c = (case c of (a, b, c') \<Rightarrow> map (fval t a b c') [0..<fc t])"

definition f_in_bounds :: "fgrid \<Rightarrow> coord \<Rightarrow> bool" where
  "f_in_bounds t c = (case c of (a, b, c') \<Rightarrow>
     0 \<le> a \<and> a < int (fx t) \<and> 0 \<le> b \<and> b < int (fy t) \<and> 0 \<le> c' \<and> c' < int (fz t))"

subsection \<open>Float arithmetic\<close>

text \<open>
  \<open>fl32 v\<close> is the float32 value nearest to the real \<open>v\<close>: 24 significant bits, ties
  to the even significand, gradual underflow (below \<open>2 powr - 126\<close> the spacing stays
  \<open>2 powr - 149\<close>). Overflow to infinity is not modelled.
\<close>

definition round_even :: "real \<Rightarrow> int" where
  "round_even r = (let f = \<lfloor>r\<rfloor> in
     if r - of_int f < 1 / 2 then f
     else if 1 / 2 < r - of_int f then f + 1
     else if even f then f else f + 1)"

definition ex32 :: "real \<Rightarrow> int" where
  "ex32 v = max \<lfloor>log 2 v\<rfloor> (- 126)"

definition ulp32 :: "real \<Rightarrow> real" where
  "ulp32 v = 2 powr (of_int (ex32 v) - 23)"

definition fl32_pos :: "real \<Rightarrow> real" where
  "fl32_pos v = of_int (round_even (v / ulp32 v)) * ulp32 v"

definition fl32 :: "real \<Rightarrow> real" where
  "fl32 v = (if v = 0 then 0 else if 0 < v then fl32_pos v else - fl32_pos (- v))"

subsection \<open>The max-flow graph object\<close>

text \<open>
  Terminal capacities are floats that may be \<^verbatim>\<open>np.inf\<close>. The graph records the calls
  made on the \<^verbatim>\<open>maxflow.Graph\<close> object, in order: \<^verbatim>\<open>add_nodes\<close>,
  \<^verbatim>\<open>add_tedge(node, cap_source, cap_sink)\<close> and
  \<^verbatim>\<open>add_edge(i, j, cap, rcap)\<close>.
\<close>

datatype cap = Fin real | Infinity

record graph =
  node_count :: nat
  tedges :: "(nat \<times> cap \<times> cap) list"
  edges :: "(nat \<times> nat \<times> real \<times> real) list"

definition empty_graph :: graph where
  "empty_graph = \<lparr>node_count = 0, tedges = [], edges = []\<rparr>"

definition add_nodes :: "graph \<Rightarrow> nat \<Rightarrow> nat list \<times> graph" where
  "add_nodes g n = ([node_count g ..< node_count g + n], g\<lparr>node_count := node_count g + n\<rparr>)"

definition add_tedge :: "graph \<Rightarrow> nat \<Rightarrow> cap \<Rightarrow> cap \<Rightarrow> graph" where
  "add_tedge g i cs ct = g\<lparr>tedges := tedges g @ [(i, cs, ct)]\<rparr>"

definition add_edge :: "graph \<Rightarrow> nat \<Rightarrow> nat \<Rightarrow> real \<Rightarrow> real \<Rightarrow> graph" where
  "add_edge g i j c rc = g\<lparr>edges := edges g @ [(i, j, c, rc)]\<rparr>"

subsection \<open>Node identifiers and the active voxels\<close>

definition g_neighbor_offsets :: "coord list" where
  "g_neighbor_offsets = [(-1, 0, 0), (0, -1, 0), (0, 0, -1), (1, 0, 0), (0, 1, 0), (0, 0, 1)]"

fun gen_id :: "coord \<Rightarrow> int \<Rightarrow> int \<Rightarrow> int" where
  "gen_id (t0, t1, t2) x y = t0 + t1 * x + t2 * x * y"

fun cadd :: "coord \<Rightarrow> coord \<Rightarrow> coord" where
  "cadd (a, b, c) (a', b', c') = (a + a', b + b', c + c')"

text \<open>
  \<^verbatim>\<open>torch.nn.MaxPool3d(3, stride=1, padding=1)\<close> applied to the 4-d tensor of shape
  \<open>(X, Y, Z, 1)\<close>: torch reads a 4-d input as \<open>(C, D, H, W)\<close>, so the first axis is the
  channel axis and the window ranges over the second and third axes (the last axis has
  size one). Padding of a max pool never wins, so the value is the maximum over the part of
  the window inside the tensor.
\<close>

definition window :: "nat \<Rightarrow> int \<Rightarrow> int list" where
  "window n b = filter (\<lambda>j. 0 \<le> j \<and> j < int n) [b - 1, b, b + 1]"

definition MaxPool3d :: "sgrid \<Rightarrow> coord \<Rightarrow> real" where
  "MaxPool3d d c = (case c of (a, b, c') \<Rightarrow>
     Max (set (concat (map (\<lambda>b'. map (\<lambda>c''. sval d a b' c'') (window (sz d) c')) (window (sy d) b)))))"

definition non_zero_densities :: "sgrid \<Rightarrow> coord \<Rightarrow> bool" where
  "non_zero_densities d c = (MaxPool3d d c > 0)"

text \<open>\<^verbatim>\<open>idx_grid\<close>: all coordinates of the grid, in the row-major order of the tensor.\<close>

definition idx_grid :: "nat \<Rightarrow> nat \<Rightarrow> nat \<Rightarrow> coord list" where
  "idx_grid x y z = List.product [0..int x - 1] (List.product [0..int y - 1] [0..int z - 1])"

text \<open>The coordinates where the mask \<^verbatim>\<open>non_zero_densities\<close> holds, in row-major order.\<close>

definition active_idx :: "sgrid \<Rightarrow> coord list" where
  "active_idx d = filter (non_zero_densities d) (idx_grid (sx d) (sy d) (sz d))"

text \<open>
  \<^verbatim>\<open>idx_values = idx_grid[non_zero_densities.cpu().squeeze()]\<close>. The mask has shape
  \<open>(X, Y, Z, 1)\<close> and \<^verbatim>\<open>squeeze()\<close> drops every axis of size one, not only the last.
  With no axis of size one among \<open>X, Y, Z\<close> the squeezed mask has shape \<open>(X, Y, Z)\<close>
  and the result has one row of three coordinates per active voxel. With an axis of size
  one, the squeezed mask has fewer axes: when its shape is not a prefix of \<open>(X, Y, Z)\<close>
  the indexing raises; when it is (the axes of size one come last), the indexing succeeds
  and every row keeps the axes of size one in front of the three coordinates.
\<close>

datatype idx_tensor = Rows "coord list" | NestedRows "coord list"

fun rows_of :: "idx_tensor \<Rightarrow> coord list" where
  "rows_of (Rows vs) = vs"
| "rows_of (NestedRows vs) = vs"

definition idx_values_of :: "sgrid \<Rightarrow> error + idx_tensor" where
  "idx_values_of d =
     (if (sx d = 1 \<and> \<not> (sy d = 1 \<and> sz d = 1)) \<or> (sy d = 1 \<and> sz d \<noteq> 1) then Inl IndexError
      else if sz d = 1 then Inr (NestedRows (active_idx d))
      else Inr (Rows (active_idx d)))"

text \<open>The loop filling \<^verbatim>\<open>idx_dict\<close>, for rows of three coordinates.\<close>

fun fill_idx_dict :: "coord list \<Rightarrow> int \<Rightarrow> int \<Rightarrow> nat list \<Rightarrow> (int \<rightharpoonup> nat) \<Rightarrow> (int \<rightharpoonup> nat)" where
  "fill_idx_dict idx_values x y [] idx_dict = idx_dict"
| "fill_idx_dict idx_values x y (i # is) idx_dict =
     fill_idx_dict idx_values x y is (idx_dict(gen_id (idx_values ! i) x y \<mapsto> i))"

text \<open>
  On a row that kept an axis of size one, \<^verbatim>\<open>t_in[1]\<close> in \<^verbatim>\<open>gen_id\<close> is out of range:
  the first pass of the loop raises, with the dictionary still empty.
\<close>

definition idx_dict_of :: "idx_tensor \<Rightarrow> int \<Rightarrow> int \<Rightarrow> error + (int \<rightharpoonup> nat)" where
  "idx_dict_of idx_values x y =
     (case idx_values of
        Rows vs \<Rightarrow> Inr (fill_idx_dict vs x y [0..<length vs] Map.empty)
      | NestedRows vs \<Rightarrow> if vs = [] then Inr Map.empty else Inl IndexError)"

text \<open>The grids with no axis of size one or zero, and their dictionary.\<close>

definition no_unit_axis :: "sgrid \<Rightarrow> bool" where
  "no_unit_axis d = (2 \<le> sx d \<and> 2 \<le> sy d \<and> 2 \<le> sz d)"

definition node_dict :: "sgrid \<Rightarrow> (int \<rightharpoonup> nat)" where
  "node_dict d =
     fill_idx_dict (active_idx d) (int (sx d)) (int (sy d)) [0..<length (active_idx d)] Map.empty"

text \<open>The coordinates inside the grid of a field.\<close>

definition in_grid :: "sgrid \<Rightarrow> coord \<Rightarrow> bool" where
  "in_grid d c = (case c of (a, b, c') \<Rightarrow>
     0 \<le> a \<and> a < int (sx d) \<and> 0 \<le> b \<and> b < int (sy d) \<and> 0 \<le> c' \<and> c' < int (sz d))"


subsection \<open>Seed selection\<close>

definition softmax2 :: "real \<Rightarrow> real \<Rightarrow> real \<times> real" where
  "softmax2 e ob = (exp e / (exp e + exp ob), exp ob / (exp e + exp ob))"

text \<open>\<^verbatim>\<open>torch.max\<close> of a 1-d tensor; it raises on an empty tensor.\<close>

fun torch_max :: "real list \<Rightarrow> error + real" where
  "torch_max [] = Inl RuntimeError"
| "torch_max (v # vs) = Inr (fold max vs v)"

text \<open>\<^verbatim>\<open>mask.nonzero()\<close>: the indices where the mask holds, ascending.\<close>

definition nonzero :: "bool list \<Rightarrow> nat list" where
  "nonzero bs = filter (\<lambda>i. bs ! i) [0..<length bs]"

text \<open>
  \<^verbatim>\<open>torch.topk(vals, k).indices\<close>: the indices of the \<open>k\<close> largest values, largest
  first; it raises when \<open>k\<close> exceeds the number of values. torch leaves the order among
  equal values open; the model takes the lower index first.
\<close>

definition topk :: "real list \<Rightarrow> nat \<Rightarrow> error + nat list" where
  "topk vals k =
     (if length vals < k then Inl RuntimeError
      else Inr (take k (sort_key (\<lambda>i. - (vals ! i)) [0..<length vals])))"

text \<open>
  Lines 205 to 228 of \<^verbatim>\<open>build_graph\<close>, from the attention values of the active voxels
  to the two lists of seed node indices. \<open>randperm n\<close> stands for
  \<^verbatim>\<open>torch.randperm(n)\<close>.
\<close>

definition select_seeds :: "(nat \<Rightarrow> nat list) \<Rightarrow> real list \<Rightarrow> real list \<Rightarrow> error + (nat list \<times> nat list)" where
  "select_seeds randperm edit_attn_vals obj_attn_vals =
     (let probs = map2 softmax2 edit_attn_vals obj_attn_vals in
      case torch_max (map fst probs) of
        Inl e \<Rightarrow> Inl e
      | Inr top_prob_edit \<Rightarrow>
          let best_voxels_edit_mask = map (\<lambda>p. fst p \<ge> 0.992 * top_prob_edit) probs;
              top_k_best_edit_idxs = nonzero best_voxels_edit_mask;
              obj_mask = map (\<lambda>p. snd p > fst p) probs;
              obj_idxs = nonzero obj_mask;
              perm = randperm (length obj_idxs);
              idx = take 5000 perm;
              top_k_best_obj_idxs = map (\<lambda>j. obj_idxs ! j) idx
          in if length (filter id best_voxels_edit_mask) < 300
             then (case topk edit_attn_vals 300 of
                     Inl e \<Rightarrow> Inl e
                   | Inr edit_topk \<Rightarrow>
                       (case topk obj_attn_vals 200 of
                          Inl e \<Rightarrow> Inl e
                        | Inr obj_topk \<Rightarrow> Inr (edit_topk, obj_topk)))
             else Inr (top_k_best_edit_idxs, top_k_best_obj_idxs))"

subsection \<open>Edges\<close>

text \<open>
  \<^verbatim>\<open>torch.sqrt(((u - v) ** 2).sum())\<close> on float32 vectors; the sum is taken from left
  to right.
\<close>

definition l2 :: "real list \<Rightarrow> real list \<Rightarrow> real" where
  "l2 u v = fl32 (sqrt (foldl (\<lambda>s q. fl32 (s + q)) 0
               (map (\<lambda>p. fl32 ((fl32 (fst p - snd p)) ^ 2)) (zip u v))))"

text \<open>
  \<^verbatim>\<open>K * torch.exp(-(l2_colors * 1.0 + l2_probs * 0.0) / sigma)\<close>: the Python floats
  \<open>K\<close> and \<open>sigma\<close> enter the float32 operations as float32 values.
\<close>

definition affinity :: "real \<Rightarrow> real \<Rightarrow> real \<Rightarrow> real \<Rightarrow> real" where
  "affinity K sigma l2_colors l2_probs =
     fl32 (fl32 K * fl32 (exp (fl32 (- fl32 (fl32 (l2_colors * 1.0) + fl32 (l2_probs * 0.0))
                                       / fl32 sigma))))"

text \<open>The variables of \<^verbatim>\<open>build_graph\<close> that the edge loop reads.\<close>

record env =
  e_x :: nat
  e_y :: nat
  e_z :: nat
  e_densities :: sgrid
  e_features :: fgrid
  e_idx_values :: "coord list"
  e_idx_dict :: "int \<rightharpoonup> nat"
  e_probs :: "(real \<times> real) list"
  e_edit_idxs :: "nat list"
  e_obj_idxs :: "nat list"
  e_nodes :: "nat list"
  e_K :: real
  e_sigma :: real

datatype step = Continue | Raise error | AddEdge nat real

text \<open>
  \<^verbatim>\<open>probs[nidx]\<close> indexes the rows of \<^verbatim>\<open>probs\<close> with the three coordinates of the
  voxel; it raises when a coordinate is not below the number of rows. The value only
  enters the weight multiplied by zero.
\<close>

definition l2_probs_of :: "(real \<times> real) list \<Rightarrow> nat \<Rightarrow> coord \<Rightarrow> real" where
  "l2_probs_of probs i nidx = (case nidx of (a, b, c) \<Rightarrow>
     sqrt (\<Sum>k\<leftarrow>[a, b, c]. (fst (probs ! i) - fst (probs ! nat k)) ^ 2
                            + (snd (probs ! i) - snd (probs ! nat k)) ^ 2))"

text \<open>The body of the loop over the neighbour offsets, for node \<open>i\<close> at voxel \<open>nidx\<close>.\<close>

definition neighbor_step :: "env \<Rightarrow> nat \<Rightarrow> coord \<Rightarrow> coord \<Rightarrow> step" where
  "neighbor_step E i nidx n_offset =
     (case cadd nidx n_offset of (a, b, c) \<Rightarrow>
        if (a \<ge> int (e_x E) \<or> b \<ge> int (e_x E) \<or> c \<ge> int (e_x E))
           \<or> (a \<ge> int (e_y E) \<or> b \<ge> int (e_y E) \<or> c \<ge> int (e_y E))
           \<or> (a \<ge> int (e_z E) \<or> b \<ge> int (e_z E) \<or> c \<ge> int (e_z E))
        then Continue
        else if a < 0 \<or> b < 0 \<or> c < 0 then Continue
        else if sat (e_densities E) (a, b, c) \<le> 0 then Continue
        else (case e_idx_dict E (gen_id (a, b, c) (int (e_x E)) (int (e_y E))) of
                None \<Rightarrow> Raise KeyError
              | Some neighbor_node_idx \<Rightarrow>
                  if \<not> f_in_bounds (e_features E) nidx \<or> \<not> f_in_bounds (e_features E) (a, b, c)
                  then Raise IndexError
                  else if (case nidx of (p, q, r) \<Rightarrow>
                             p \<ge> int (length (e_probs E)) \<or> q \<ge> int (length (e_probs E))
                             \<or> r \<ge> int (length (e_probs E)))
                  then Raise IndexError
                  else AddEdge neighbor_node_idx
                         (affinity (e_K E) (e_sigma E)
                            (l2 (fvec (e_features E) nidx) (fvec (e_features E) (a, b, c)))
                            (l2_probs_of (e_probs E) i nidx))))"

fun neighbor_loop :: "env \<Rightarrow> nat \<Rightarrow> coord \<Rightarrow> coord list \<Rightarrow> graph \<Rightarrow> error option \<times> graph" where
  "neighbor_loop E i nidx [] g = (None, g)"
| "neighbor_loop E i nidx (n_offset # rest) g =
     (case neighbor_step E i nidx n_offset of
        Continue \<Rightarrow> neighbor_loop E i nidx rest g
      | Raise e \<Rightarrow> (Some e, g)
      | AddEdge neighbor_node_idx w \<Rightarrow>
          neighbor_loop E i nidx rest
            (add_edge g (e_nodes E ! i) (e_nodes E ! neighbor_node_idx) w w))"

definition set_tedge :: "env \<Rightarrow> nat \<Rightarrow> graph \<Rightarrow> graph" where
  "set_tedge E i g =
     (if i \<in> set (e_edit_idxs E) then add_tedge g (e_nodes E ! i) Infinity (Fin 0)
      else if i \<in> set (e_obj_idxs E) then add_tedge g (e_nodes E ! i) (Fin 0) Infinity
      else g)"

fun node_loop :: "env \<Rightarrow> nat list \<Rightarrow> graph \<Rightarrow> error option \<times> graph" where
  "node_loop E [] g = (None, g)"
| "node_loop E (i # is) g =
     (case neighbor_loop E i (e_idx_values E ! i) g_neighbor_offsets (set_tedge E i g) of
        (Some e, g') \<Rightarrow> (Some e, g')
      | (None, g') \<Rightarrow> node_loop E is g')"

subsection \<open>\<^verbatim>\<open>build_graph\<close>\<close>

text \<open>
  \<open>get_segment g i\<close> stands for the max-flow library: the segment (0 for the source side,
  1 for the sink side) of node \<open>i\<close> after \<^verbatim>\<open>g.maxflow()\<close> on the graph \<open>g\<close>.
  The result pairs what the function returns or raises with the graph object as it stands
  at that moment. The max pool raises on a tensor with an axis of size zero.
\<close>

definition mask_index :: "sgrid \<Rightarrow> sgrid \<Rightarrow> coord list \<Rightarrow> error + real list" where
  "mask_index t d idx_values =
     (if sshape t \<noteq> sshape d then Inl IndexError else Inr (map (sat t) idx_values))"

definition make_env :: "fgrid \<Rightarrow> sgrid \<Rightarrow> coord list \<Rightarrow> (int \<rightharpoonup> nat) \<Rightarrow> real list \<Rightarrow> real list \<Rightarrow> nat list \<Rightarrow> nat list \<Rightarrow> nat list \<Rightarrow> real \<Rightarrow> real \<Rightarrow> env" where
  "make_env feats dens idx_values idx_dict edit_attn_vals obj_attn_vals edit_idxs obj_idxs nodes K sigma =
     \<lparr>e_x = sx dens, e_y = sy dens, e_z = sz dens, e_densities = dens, e_features = feats,
      e_idx_values = idx_values,
      e_idx_dict = idx_dict,
      e_probs = map2 softmax2 edit_attn_vals obj_attn_vals,
      e_edit_idxs = edit_idxs, e_obj_idxs = obj_idxs, e_nodes = nodes,
      e_K = K, e_sigma = sigma\<rparr>"

definition build_graph ::
  "(graph \<Rightarrow> nat \<Rightarrow> nat) \<Rightarrow> (nat \<Rightarrow> nat list) \<Rightarrow> fgrid \<Rightarrow> sgrid \<Rightarrow> sgrid \<Rightarrow> sgrid \<Rightarrow> real \<Rightarrow> real
     \<Rightarrow> (error + (nat list \<times> coord list)) \<times> graph" where
  "build_graph get_segment randperm feats dens edit_attn obj_attn K sigma =
     (if sx dens = 0 \<or> sy dens = 0 \<or> sz dens = 0 then (Inl RuntimeError, empty_graph)
      else case idx_values_of dens of
        Inl e \<Rightarrow> (Inl e, empty_graph)
      | Inr idx_tensor \<Rightarrow>
     (let idx_values = rows_of idx_tensor;
          num_nodes = length (active_idx dens);
          (nodes, g) = add_nodes empty_graph num_nodes
      in case idx_dict_of idx_tensor (int (sx dens)) (int (sy dens)) of
           Inl e \<Rightarrow> (Inl e, g)
         | Inr idx_dict \<Rightarrow>
        (case mask_index edit_attn dens idx_values of
           Inl e \<Rightarrow> (Inl e, g)
         | Inr edit_attn_vals \<Rightarrow>
        (case mask_index obj_attn dens idx_values of
           Inl e \<Rightarrow> (Inl e, g)
         | Inr obj_attn_vals \<Rightarrow>
        (case select_seeds randperm edit_attn_vals obj_attn_vals of
           Inl e \<Rightarrow> (Inl e, g)
         | Inr (top_k_best_edit_idxs, top_k_best_obj_idxs) \<Rightarrow>
        (case node_loop (make_env feats dens idx_values idx_dict edit_attn_vals obj_attn_vals
                           top_k_best_edit_idxs top_k_best_obj_idxs nodes K sigma)
                [0..<num_nodes] g of
           (Some e, g') \<Rightarrow> (Inl e, g')
         | (None, g') \<Rightarrow>
             (Inr (map (\<lambda>i. get_segment g' (nodes ! i)) [0..<num_nodes], idx_values), g')))))))"

subsection \<open>What the loops add\<close>

text \<open>
  The edge that one pass of the neighbour loop adds, the edges that one node adds when none
  of its passes raises, and the terminal edge of one node.
\<close>

definition step_edge :: "env \<Rightarrow> nat \<Rightarrow> coord \<Rightarrow> coord \<Rightarrow> (nat \<times> nat \<times> real \<times> real) list" where
  "step_edge E i nidx n_offset =
     (case neighbor_step E i nidx n_offset of
        AddEdge j w \<Rightarrow> [(e_nodes E ! i, e_nodes E ! j, w, w)]
      | _ \<Rightarrow> [])"

definition node_edges :: "env \<Rightarrow> nat \<Rightarrow> (nat \<times> nat \<times> real \<times> real) list" where
  "node_edges E i = concat (map (step_edge E i (e_idx_values E ! i)) g_neighbor_offsets)"

definition node_tedge :: "env \<Rightarrow> nat \<Rightarrow> (nat \<times> cap \<times> cap) list" where
  "node_tedge E i =
     (if i \<in> set (e_edit_idxs E) then [(e_nodes E ! i, Infinity, Fin 0)]
      else if i \<in> set (e_obj_idxs E) then [(e_nodes E ! i, Fin 0, Infinity)]
      else [])"

subsection \<open>\<^verbatim>\<open>set_and_visualize_refined_grid\<close> and \<^verbatim>\<open>get_edit_region\<close>\<close>

text \<open>
  Elementwise tensor operations broadcast: two axis sizes are compatible when they are
  equal or one of them is one, and an axis of size one is read at index zero.
\<close>

definition bdim :: "nat \<Rightarrow> nat \<Rightarrow> nat option" where
  "bdim m n = (if m = n then Some m else if m = 1 then Some n else if n = 1 then Some m else None)"

definition bshape :: "sgrid \<Rightarrow> sgrid \<Rightarrow> (nat \<times> nat \<times> nat) option" where
  "bshape t u =
     (case (bdim (sx t) (sx u), bdim (sy t) (sy u), bdim (sz t) (sz u)) of
        (Some x, Some y, Some z) \<Rightarrow> Some (x, y, z)
      | _ \<Rightarrow> None)"

definition bat :: "sgrid \<Rightarrow> coord \<Rightarrow> real" where
  "bat t c = (case c of (a, b, c') \<Rightarrow>
     sval t (if sx t = 1 then 0 else a) (if sy t = 1 then 0 else b) (if sz t = 1 then 0 else c'))"

definition fbat :: "fgrid \<Rightarrow> coord \<Rightarrow> nat \<Rightarrow> real" where
  "fbat t c k = (case c of (a, b, c') \<Rightarrow>
     fval t (if fx t = 1 then 0 else a) (if fy t = 1 then 0 else b) (if fz t = 1 then 0 else c')
       (if fc t = 1 then 0 else k))"

text \<open>\<^verbatim>\<open>torch.eq(t, u).all().item()\<close> on two scalar fields and on two feature fields.\<close>

definition torch_eq_all :: "sgrid \<Rightarrow> sgrid \<Rightarrow> error + bool" where
  "torch_eq_all t u =
     (case bshape t u of
        None \<Rightarrow> Inl RuntimeError
      | Some (x, y, z) \<Rightarrow> Inr (list_all (\<lambda>c. bat t c = bat u c) (idx_grid x y z)))"

definition torch_eq_all_f :: "fgrid \<Rightarrow> fgrid \<Rightarrow> error + bool" where
  "torch_eq_all_f t u =
     (case (bdim (fx t) (fx u), bdim (fy t) (fy u), bdim (fz t) (fz u), bdim (fc t) (fc u)) of
        (Some x, Some y, Some z, Some c) \<Rightarrow>
          Inr (list_all (\<lambda>p. list_all (\<lambda>k. fbat t p k = fbat u p k) [0..<c]) (idx_grid x y z))
      | _ \<Rightarrow> Inl RuntimeError)"

definition sigmoid :: "real \<Rightarrow> real" where
  "sigmoid v = fl32 (1 / (1 + exp (- v)))"

definition sigmoid_f :: "fgrid \<Rightarrow> fgrid" where
  "sigmoid_f t = t\<lparr>fval := \<lambda>a b c k. sigmoid (fval t a b c k)\<rparr>"

text \<open>\<^verbatim>\<open>torch.ones_like(t) * v\<close>.\<close>

definition full_like :: "sgrid \<Rightarrow> real \<Rightarrow> sgrid" where
  "full_like t v = t\<lparr>sval := \<lambda>a b c. v\<rparr>"

text \<open>\<^verbatim>\<open>grid[mask] = v\<close> for a boolean mask of the shape of the grid.\<close>

definition masked_fill :: "sgrid \<Rightarrow> (coord \<Rightarrow> bool) \<Rightarrow> real \<Rightarrow> sgrid" where
  "masked_fill t m v = t\<lparr>sval := \<lambda>a b c. if m (a, b, c) then v else sval t a b c\<rparr>"

text \<open>An integer index into an axis of size \<open>n\<close>: negative indices count from the end.\<close>

definition py_index :: "nat \<Rightarrow> int \<Rightarrow> int option" where
  "py_index n i =
     (if 0 \<le> i \<and> i < int n then Some i
      else if - int n \<le> i \<and> i < 0 then Some (i + int n) else None)"

text \<open>\<^verbatim>\<open>gt_grid[idx[0], idx[1], idx[2], 0] = 0.0\<close> for each coordinate of the list.\<close>

fun write_edit_ids :: "coord list \<Rightarrow> sgrid \<Rightarrow> error + sgrid" where
  "write_edit_ids [] gt_grid = Inr gt_grid"
| "write_edit_ids ((a, b, c) # rest) gt_grid =
     (case (py_index (sx gt_grid) a, py_index (sy gt_grid) b, py_index (sz gt_grid) c) of
        (Some a', Some b', Some c') \<Rightarrow>
          write_edit_ids rest
            (gt_grid\<lparr>sval := \<lambda>p q r. if (p, q, r) = (a', b', c') then 0.0 else sval gt_grid p q r\<rparr>)
      | _ \<Rightarrow> Inl IndexError)"

text \<open>
  The first grid marks \<^verbatim>\<open>edit.attn > object.attn\<close>; the second, the graph-cut result, is
  assigned last. Rendering and logging are outside the model. The result is the error
  raised, if any, and the output model as it stands then.
\<close>

definition set_and_visualize_refined_grid ::
  "vol_mod \<Rightarrow> vol_mod \<Rightarrow> vol_mod \<Rightarrow> nat list \<Rightarrow> coord list \<Rightarrow> error option \<times> vol_mod" where
  "set_and_visualize_refined_grid vol_mod_edit vol_mod_object vol_mod_output ids idxs =
     (if sx (densities vol_mod_edit) = 0 \<or> sy (densities vol_mod_edit) = 0
         \<or> sz (densities vol_mod_edit) = 0 then (Some RuntimeError, vol_mod_output)
      else
      let nonzero_densities = non_zero_densities (densities vol_mod_edit);
          gt_grid = full_like (attn vol_mod_edit) (-20.0)
      in case bshape (attn vol_mod_edit) (attn vol_mod_object) of
           None \<Rightarrow> (Some RuntimeError, vol_mod_output)
         | Some shp \<Rightarrow>
        if shp \<noteq> sshape gt_grid then (Some IndexError, vol_mod_output)
        else
          let gt_mask = (\<lambda>c. bat (attn vol_mod_edit) c > bat (attn vol_mod_object) c);
              out1 = vol_mod_output\<lparr>attn := masked_fill gt_grid gt_mask 0.0\<rparr>;
              gt_grid2 = full_like (attn vol_mod_edit) (-20.0)
          in if sshape (densities vol_mod_edit) \<noteq> sshape gt_grid2 then (Some IndexError, out1)
             else
               let gt_grid3 = masked_fill gt_grid2 nonzero_densities (-10.0)
               in if length ids \<noteq> length idxs then (Some IndexError, out1)
                  else
                    let edit_ids = map snd (filter (\<lambda>p. fst p = 0) (zip ids idxs))
                    in (case write_edit_ids edit_ids gt_grid3 of
                          Inl e \<Rightarrow> (Some e, out1)
                        | Inr gt_grid4 \<Rightarrow> (None, out1\<lparr>attn := gt_grid4\<rparr>)))"

text \<open>
  \<^verbatim>\<open>get_edit_region\<close> with \<^verbatim>\<open>produce_scatter_plot = False\<close> (its default). The result
  is the error raised, if any, the output model, and the graph object of
  \<^verbatim>\<open>build_graph\<close> when that call was reached.
\<close>

definition get_edit_region ::
  "(graph \<Rightarrow> nat \<Rightarrow> nat) \<Rightarrow> (nat \<Rightarrow> nat list) \<Rightarrow> vol_mod \<Rightarrow> vol_mod \<Rightarrow> vol_mod \<Rightarrow> real \<Rightarrow> real
     \<Rightarrow> error option \<times> vol_mod \<times> graph option" where
  "get_edit_region get_segment randperm vol_mod_edit vol_mod_object vol_mod_output K sigma =
     (case torch_eq_all (densities vol_mod_edit) (densities vol_mod_object) of
        Inl e \<Rightarrow> (Some e, vol_mod_output, None)
      | Inr dens_eq \<Rightarrow>
     if \<not> dens_eq then (Some AssertionError, vol_mod_output, None)
     else
       (case torch_eq_all_f (features vol_mod_edit) (features vol_mod_object) of
          Inl e \<Rightarrow> (Some e, vol_mod_output, None)
        | Inr feat_eq \<Rightarrow>
       if \<not> feat_eq then (Some AssertionError, vol_mod_output, None)
       else
         (case build_graph get_segment randperm (sigmoid_f (features vol_mod_edit))
                 (densities vol_mod_edit) (attn vol_mod_edit) (attn vol_mod_object) K sigma of
            (Inl e, g) \<Rightarrow> (Some e, vol_mod_output, Some g)
          | (Inr (ids, idxs), g) \<Rightarrow>
              (case set_and_visualize_refined_grid vol_mod_edit vol_mod_object vol_mod_output ids idxs of
                 (err, out) \<Rightarrow> (err, out, Some g)))))"

subsection \<open>The contract of the max-flow library\<close>

text \<open>
  The library is outside the repository. Its contract: the segments it reports after
  \<^verbatim>\<open>maxflow()\<close> form a minimum cut. A node in segment 0 is on the source side, so its
  edge to the sink is cut; a node in segment 1 loses its edge from the source; an edge
  between nodes of different segments is cut in the direction from source side to sink side.
\<close>

fun cap_add :: "cap \<Rightarrow> cap \<Rightarrow> cap" where
  "cap_add (Fin a) (Fin b) = Fin (a + b)"
| "cap_add _ _ = Infinity"

fun cap_le :: "cap \<Rightarrow> cap \<Rightarrow> bool" where
  "cap_le _ Infinity = True"
| "cap_le Infinity (Fin b) = False"
| "cap_le (Fin a) (Fin b) = (a \<le> b)"

definition tedge_cut :: "nat list \<Rightarrow> nat \<times> cap \<times> cap \<Rightarrow> cap" where
  "tedge_cut seg t = (case t of (i, cs, ct) \<Rightarrow> if seg ! i = 0 then ct else cs)"

definition edge_cut :: "nat list \<Rightarrow> nat \<times> nat \<times> real \<times> real \<Rightarrow> real" where
  "edge_cut seg e = (case e of (i, j, c, rc) \<Rightarrow>
     if seg ! i = 0 \<and> seg ! j \<noteq> 0 then c else if seg ! i \<noteq> 0 \<and> seg ! j = 0 then rc else 0)"

definition cut_cost :: "graph \<Rightarrow> nat list \<Rightarrow> cap" where
  "cut_cost g seg =
     foldr cap_add (map (tedge_cut seg) (tedges g)) (Fin (\<Sum>e\<leftarrow>edges g. edge_cut seg e))"

definition is_min_cut :: "graph \<Rightarrow> nat list \<Rightarrow> bool" where
  "is_min_cut g seg =
     (seg \<in> set (List.n_lists (node_count g) [0, 1])
      \<and> (\<forall>seg' \<in> set (List.n_lists (node_count g) [0, 1]). cap_le (cut_cost g seg) (cut_cost g seg')))"

subsection \<open>The active voxels of the specification\<close>

text \<open>
  The specification calls a voxel active when the maximum of the density over its
  3 x 3 x 3 neighbourhood is strictly positive. \<open>spec_active\<close> follows these words; the
  mask of the code is \<open>non_zero_densities\<close>.
\<close>

definition spec_dilated :: "sgrid \<Rightarrow> coord \<Rightarrow> real" where
  "spec_dilated d c = (case c of (a, b, c') \<Rightarrow>
     Max (set (concat (map (\<lambda>a'. concat (map (\<lambda>b'. map (\<lambda>c''. sval d a' b' c'')
       (window (sz d) c')) (window (sy d) b))) (window (sx d) a)))))"

definition spec_active :: "sgrid \<Rightarrow> coord \<Rightarrow> bool" where
  "spec_active d c = (spec_dilated d c > 0)"

subsection \<open>Example grids\<close>

text \<open>
  A grid of 3 x 3 x 3 voxels with density at the centre voxel only. The max pool does not
  reach across the first axis: the mask holds on the middle slice and nowhere else.
\<close>

definition grid_3 :: sgrid where
  "grid_3 = \<lparr>sx = 3, sy = 3, sz = 3,
              sval = (\<lambda>a b c. if a = 1 \<and> b = 1 \<and> c = 1 then 1 else 0)\<rparr>"

text \<open>A grid of 2 x 1 x 1 voxels with density at the first voxel.\<close>

definition grid_2 :: sgrid where
  "grid_2 = \<lparr>sx = 2, sy = 1, sz = 1, sval = (\<lambda>a b c. if a = 0 then 1 else 0)\<rparr>"

text \<open>
  A slab of 76 x 2 x 2 voxels. The density is positive exactly where the third coordinate
  is zero, so the max pool makes all 304 voxels active. The edit attention is zero; the
  object attention is one on the first 75 slices and two on the last. There is one feature
  channel, with value 0 on the first slice, 100 on the second and 300 on the others. The
  permutation of the random source is the identity, and the library's segments are taken
  to be 0 for the first 300 nodes and 1 for the rest.
\<close>

definition slab_dens :: sgrid where
  "slab_dens = \<lparr>sx = 76, sy = 2, sz = 2, sval = (\<lambda>a b c. if c = 0 then 1 else 0)\<rparr>"

definition slab_edit :: sgrid where
  "slab_edit = \<lparr>sx = 76, sy = 2, sz = 2, sval = (\<lambda>a b c. 0)\<rparr>"

definition slab_obj :: sgrid where
  "slab_obj = \<lparr>sx = 76, sy = 2, sz = 2, sval = (\<lambda>a b c. if a < 75 then 1 else 2)\<rparr>"

definition slab_feats :: fgrid where
  "slab_feats = \<lparr>fx = 76, fy = 2, fz = 2, fc = 1,
                  fval = (\<lambda>a b c k. if a = 0 then 0 else if a = 1 then 100 else 300)\<rparr>"

definition id_perm :: "nat \<Rightarrow> nat list" where
  "id_perm n = [0..<n]"

definition slab_segment :: "graph \<Rightarrow> nat \<Rightarrow> nat" where
  "slab_segment g i = (if i < 300 then 0 else 1)"

definition slab_run :: "(error + (nat list \<times> coord list)) \<times> graph" where
  "slab_run = build_graph slab_segment id_perm slab_feats slab_dens slab_edit slab_obj 5 (1 / 10)"

text \<open>The variables of the edge loop in that run, and the graph it builds.\<close>

definition slab_env :: env where
  "slab_env = make_env slab_feats slab_dens (active_idx slab_dens) (node_dict slab_dens)
     (replicate 300 0 @ replicate 4 0) (replicate 300 1 @ replicate 4 2)
     [0..<300] [0..<304] [0..<304] 5 (1 / 10)"

definition slab_graph :: graph where
  "slab_graph = \<lparr>node_count = 304,
     tedges = concat (map (node_tedge slab_env) [0..<304]),
     edges = concat (map (node_edges slab_env) [0..<304])\<rparr>"

text \<open>
  Grids of 2 x 2 x 2 and 3 x 3 x 3 voxels with one value everywhere, a feature tensor of
  2 x 2 x 2 voxels with one channel, and three models on them: one with density zero
  everywhere, one with density one everywhere, and one with density one everywhere whose
  attention has 3 x 3 x 3 voxels.
\<close>

definition cube2 :: "real \<Rightarrow> sgrid" where
  "cube2 v = \<lparr>sx = 2, sy = 2, sz = 2, sval = (\<lambda>a b c. v)\<rparr>"


definition cube2_feats :: fgrid where
  "cube2_feats = \<lparr>fx = 2, fy = 2, fz = 2, fc = 1, fval = (\<lambda>a b c k. 0)\<rparr>"

definition empty_mod :: vol_mod where
  "empty_mod = \<lparr>densities = cube2 0, features = cube2_feats, attn = cube2 0\<rparr>"

definition full_mod :: vol_mod where
  "full_mod = \<lparr>densities = cube2 1, features = cube2_feats, attn = cube2 0\<rparr>"



text \<open>Segments for the eight nodes of the 2 x 2 x 2 grid: the first is EDIT, the others OBJECT.\<close>

definition cube2_ids :: "nat list" where
  "cube2_ids = [0, 1, 1, 1, 1, 1, 1, 1]"

subsection \<open>Rounding to float32\<close>



































subsection \<open>Node identity\<close>

lemma gen_id_inj:
  assumes "0 \<le> a" "a < X" "0 \<le> a'" "a' < X" "0 \<le> b" "b < Y" "0 \<le> b'" "b' < Y"
    and "gen_id (a, b, c) X Y = gen_id (a', b', c') X Y"
  shows "a = a' \<and> b = b' \<and> c = c'"
proof -
  have e: "a + X * (b + c * Y) = a' + X * (b' + c' * Y)"
    using assms(9) by (simp add: algebra_simps)
  have "(a + X * (b + c * Y)) mod X = a" "(a' + X * (b' + c' * Y)) mod X = a'"
    using assms by simp_all
  with e have a: "a = a'" by simp
  with e assms have "b + c * Y = b' + c' * Y" by simp
  then have e2: "b + Y * c = b' + Y * c'" by (simp add: algebra_simps)
  have "(b + Y * c) mod Y = b" "(b' + Y * c') mod Y = b'"
    using assms by simp_all
  with e2 have b: "b = b'" by simp
  with e2 assms have "c = c'" by simp
  with a b show ?thesis by simp
qed

lemma gen_id_inj_on_grid:
  "inj_on (\<lambda>c. gen_id c (int (sx d)) (int (sy d))) {c. in_grid d c}"
proof (rule inj_onI)
  fix c c'
  assume g: "c \<in> {c. in_grid d c}" "c' \<in> {c. in_grid d c}"
    and eq: "gen_id c (int (sx d)) (int (sy d)) = gen_id c' (int (sx d)) (int (sy d))"
  obtain a b e where c: "c = (a, b, e)" by (cases c)
  obtain a' b' e' where c': "c' = (a', b', e')" by (cases c')
  from g have bounds: "0 \<le> a" "a < int (sx d)" "0 \<le> a'" "a' < int (sx d)"
      "0 \<le> b" "b < int (sy d)" "0 \<le> b'" "b' < int (sy d)"
    by (simp_all add: in_grid_def c c')
  from eq have "gen_id (a, b, e) (int (sx d)) (int (sy d)) = gen_id (a', b', e') (int (sx d)) (int (sy d))"
    by (simp only: c c')
  with bounds have "a = a' \<and> b = b' \<and> e = e'"
    by (rule gen_id_inj)
  then show "c = c'" by (simp add: c c')
qed

lemma gen_id_eq_grid:
  assumes "in_grid d c" "in_grid d c'"
    and "gen_id c (int (sx d)) (int (sy d)) = gen_id c' (int (sx d)) (int (sy d))"
  shows "c = c'"
  using inj_onD [OF gen_id_inj_on_grid assms(3)] assms(1,2) by simp

lemma set_idx_grid: "set (idx_grid x y z) = {c. case c of (a, b, c') \<Rightarrow>
     0 \<le> a \<and> a < int x \<and> 0 \<le> b \<and> b < int y \<and> 0 \<le> c' \<and> c' < int z}"
  by (auto simp: idx_grid_def)

lemma distinct_idx_grid: "distinct (idx_grid x y z)"
  unfolding idx_grid_def by (simp add: distinct_product)

lemma set_active_idx: "set (active_idx d) = {c. in_grid d c \<and> non_zero_densities d c}"
  by (auto simp: active_idx_def set_idx_grid in_grid_def)

lemma distinct_active_idx: "distinct (active_idx d)"
  by (simp add: active_idx_def distinct_idx_grid)

lemma fill_idx_dict_other:
  "\<forall>i\<in>set is. gen_id (vs ! i) x y \<noteq> k \<Longrightarrow> fill_idx_dict vs x y is D k = D k"
  by (induction "is" arbitrary: D) auto

lemma fill_idx_dict_hit:
  "i \<in> set is \<Longrightarrow> \<forall>j\<in>set is. gen_id (vs ! j) x y = gen_id (vs ! i) x y \<longrightarrow> j = i
     \<Longrightarrow> fill_idx_dict vs x y is D (gen_id (vs ! i) x y) = Some i"
proof (induction "is" arbitrary: D)
  case Nil
  then show ?case by simp
next
  case (Cons j js)
  show ?case
  proof (cases "i \<in> set js")
    case True
    with Cons show ?thesis by simp
  next
    case False
    with Cons.prems have ji: "j = i" by simp
    from False Cons.prems(2) have "\<forall>l\<in>set js. gen_id (vs ! l) x y \<noteq> gen_id (vs ! i) x y"
      by auto
    then show ?thesis using ji by (simp add: fill_idx_dict_other)
  qed
qed

lemma idx_values_nth_in_grid:
  "i < length (active_idx d) \<Longrightarrow> in_grid d (active_idx d ! i) \<and> non_zero_densities d (active_idx d ! i)"
  using set_active_idx [of d] nth_mem [of i "active_idx d"] by blast

lemma idx_values_gen_id_inj:
  assumes "i < length (active_idx d)" "j < length (active_idx d)"
    and "gen_id (active_idx d ! j) (int (sx d)) (int (sy d)) = gen_id (active_idx d ! i) (int (sx d)) (int (sy d))"
  shows "j = i"
proof -
  have "active_idx d ! j = active_idx d ! i"
    using assms idx_values_nth_in_grid [of i d] idx_values_nth_in_grid [of j d]
    by (blast intro: gen_id_eq_grid)
  with assms(1,2) show ?thesis
    using distinct_active_idx [of d] by (simp add: nth_eq_iff_index_eq)
qed

lemma node_dict_node:
  assumes "i < length (active_idx d)"
  shows "node_dict d (gen_id (active_idx d ! i) (int (sx d)) (int (sy d))) = Some i"
  unfolding node_dict_def
  by (rule fill_idx_dict_hit) (use assms idx_values_gen_id_inj [of i d] in auto)

lemma node_dict_inactive:
  assumes "in_grid d c" "\<not> non_zero_densities d c"
  shows "node_dict d (gen_id c (int (sx d)) (int (sy d))) = None"
proof -
  have "\<forall>i\<in>set [0..<length (active_idx d)].
          gen_id (active_idx d ! i) (int (sx d)) (int (sy d)) \<noteq> gen_id c (int (sx d)) (int (sy d))"
  proof
    fix i assume "i \<in> set [0..<length (active_idx d)]"
    then have i: "i < length (active_idx d)" by simp
    from idx_values_nth_in_grid [OF i] assms have "active_idx d ! i \<noteq> c" by auto
    with idx_values_nth_in_grid [OF i] assms(1)
    show "gen_id (active_idx d ! i) (int (sx d)) (int (sy d)) \<noteq> gen_id c (int (sx d)) (int (sy d))"
      by (blast dest: gen_id_eq_grid)
  qed
  then show ?thesis
    unfolding node_dict_def by (simp add: fill_idx_dict_other)
qed

text \<open>
  On a grid with no axis of size one or zero, \<^verbatim>\<open>idx_values\<close> has one row per voxel of
  the mask, and the dictionary is \<open>node_dict\<close>: the node index \<open>i\<close> and the \<open>i\<close>-th voxel
  of the mask correspond one to one, the dictionary sends the id of that voxel to \<open>i\<close>
  and has no entry for a voxel of the grid outside the mask. The mask is the one of the
  code, which dilates the density along the second and third axis only.
\<close>

lemma idx_values_of_rows: "no_unit_axis d \<Longrightarrow> idx_values_of d = Inr (Rows (active_idx d))"
  by (auto simp: idx_values_of_def no_unit_axis_def)

lemma idx_dict_of_rows:
  "idx_dict_of (Rows (active_idx d)) (int (sx d)) (int (sy d)) = Inr (node_dict d)"
  by (simp add: idx_dict_of_def node_dict_def)

lemma mask_node_bijection:
  "inj_on (\<lambda>c. gen_id c (int (sx d)) (int (sy d))) {c. in_grid d c}
   \<and> bij_betw (\<lambda>i. active_idx d ! i) {..<length (active_idx d)}
        {c. in_grid d c \<and> non_zero_densities d c}
   \<and> (\<forall>i<length (active_idx d).
        node_dict d (gen_id (active_idx d ! i) (int (sx d)) (int (sy d))) = Some i)
   \<and> (\<forall>c. in_grid d c \<and> \<not> non_zero_densities d c \<longrightarrow>
        node_dict d (gen_id c (int (sx d)) (int (sy d))) = None)"
proof -
  have "bij_betw (\<lambda>i. active_idx d ! i) {..<length (active_idx d)}
        {c. in_grid d c \<and> non_zero_densities d c}"
    by (rule bij_betw_nth) (simp_all add: distinct_active_idx set_active_idx)
  moreover have "\<forall>i<length (active_idx d).
        node_dict d (gen_id (active_idx d ! i) (int (sx d)) (int (sy d))) = Some i"
    by (simp add: node_dict_node)
  moreover have "\<forall>c. in_grid d c \<and> \<not> non_zero_densities d c \<longrightarrow>
        node_dict d (gen_id c (int (sx d)) (int (sy d))) = None"
    by (simp add: node_dict_inactive)
  ultimately show ?thesis
    using gen_id_inj_on_grid [of d] by (intro conjI)
qed

lemma grid_3_inactive: "\<not> non_zero_densities grid_3 (0, 1, 1)"
  by (simp add: non_zero_densities_def MaxPool3d_def window_def grid_3_def)

lemma grid_3_spec_active: "spec_active grid_3 (0, 1, 1)"
  by (simp add: spec_active_def spec_dilated_def window_def grid_3_def)

lemma grid_2_active: "active_idx grid_2 = [(0, 0, 0)]"
  by (simp add: active_idx_def idx_grid_def grid_2_def non_zero_densities_def
      MaxPool3d_def window_def upto.simps)

text \<open>
  C8. The claim fails on the code in two places. On the 3 x 3 x 3 grid with density at the
  centre voxel only, the voxel \<open>(0, 1, 1)\<close> is active in the sense of the specification
  (3 x 3 x 3 neighbourhood), but the max pool of the code reads the first axis as the
  channel axis and dilates along the other two only: the voxel is outside the mask, it is
  no row of \<^verbatim>\<open>idx_values\<close> and the dictionary has no entry for its id, so it has no
  node. On the 2 x 1 x 1 grid with density at the first voxel, \<^verbatim>\<open>squeeze()\<close> drops the
  axes of size one from the mask, the row of the active voxel keeps them, and the loop
  filling the dictionary raises \<^verbatim>\<open>IndexError\<close> in \<^verbatim>\<open>gen_id\<close>: \<^verbatim>\<open>build_graph\<close> raises
  after the node was added, with no entry in the dictionary.
\<close>

theorem spec_active_voxel_without_node:
  "in_grid grid_3 (0, 1, 1) \<and> spec_active grid_3 (0, 1, 1)
   \<and> idx_values_of grid_3 = Inr (Rows (active_idx grid_3))
   \<and> (0, 1, 1) \<notin> set (active_idx grid_3)
   \<and> idx_dict_of (Rows (active_idx grid_3)) 3 3 = Inr (node_dict grid_3)
   \<and> node_dict grid_3 (gen_id (0, 1, 1) 3 3) = None
   \<and> idx_values_of grid_2 = Inr (NestedRows [(0, 0, 0)])
   \<and> idx_dict_of (NestedRows [(0, 0, 0)]) 2 1 = Inl IndexError
   \<and> build_graph get_segment randperm feats grid_2 edit_attn obj_attn K sigma
       = (Inl IndexError, \<lparr>node_count = 1, tedges = [], edges = []\<rparr>)"
proof -
  have a: "in_grid grid_3 (0, 1, 1)"
    by (simp add: in_grid_def grid_3_def)
  have b: "idx_values_of grid_3 = Inr (Rows (active_idx grid_3))"
    by (simp add: idx_values_of_def grid_3_def)
  have c: "(0, 1, 1) \<notin> set (active_idx grid_3)"
    using grid_3_inactive by (simp add: set_active_idx)
  have d: "idx_dict_of (Rows (active_idx grid_3)) 3 3 = Inr (node_dict grid_3)"
    using idx_dict_of_rows [of grid_3] by (simp add: grid_3_def)
  have e: "node_dict grid_3 (gen_id (0, 1, 1) 3 3) = None"
    using node_dict_inactive [OF a grid_3_inactive] by (simp add: grid_3_def)
  have f: "idx_values_of grid_2 = Inr (NestedRows [(0, 0, 0)])"
    by (simp add: idx_values_of_def grid_2_active) (simp add: grid_2_def)
  have g: "idx_dict_of (NestedRows [(0, 0, 0)]) 2 1 = Inl IndexError"
    by (simp add: idx_dict_of_def)
  have h: "build_graph get_segment randperm feats grid_2 edit_attn obj_attn K sigma
       = (Inl IndexError, \<lparr>node_count = 1, tedges = [], edges = []\<rparr>)"
    by (simp add: build_graph_def f grid_2_active add_nodes_def empty_graph_def g [simplified]
        idx_dict_of_def) (simp add: grid_2_def)
  from a grid_3_spec_active b c d e f g h show ?thesis
    by (intro conjI)
qed

subsection \<open>The loops of \<^verbatim>\<open>build_graph\<close>\<close>

lemma neighbor_loop_keeps:
  "tedges (snd (neighbor_loop E i nidx offs g)) = tedges g
   \<and> node_count (snd (neighbor_loop E i nidx offs g)) = node_count g"
  by (induction offs arbitrary: g) (auto simp: add_edge_def split: step.splits)


lemma neighbor_loop_None:
  "fst (neighbor_loop E i nidx offs g) = None \<Longrightarrow>
     edges (snd (neighbor_loop E i nidx offs g)) = edges g @ concat (map (step_edge E i nidx) offs)"
proof (induction offs arbitrary: g)
  case Nil
  then show ?case by simp
next
  case (Cons off offs)
  show ?case
  proof (cases "neighbor_step E i nidx off")
    case Continue
    then show ?thesis using Cons by (simp add: step_edge_def)
  next
    case (Raise e)
    then show ?thesis using Cons.prems by simp
  next
    case (AddEdge j w)
    then show ?thesis
      using Cons.IH [of "add_edge g (e_nodes E ! i) (e_nodes E ! j) w w"] Cons.prems
      by (simp add: step_edge_def add_edge_def)
  qed
qed

lemma neighbor_loop_no_raise:
  "\<forall>off\<in>set offs. \<forall>e. neighbor_step E i nidx off \<noteq> Raise e \<Longrightarrow>
     fst (neighbor_loop E i nidx offs g) = None"
proof (induction offs arbitrary: g)
  case Nil
  then show ?case by simp
next
  case (Cons off offs)
  then show ?case by (cases "neighbor_step E i nidx off") auto
qed

lemma set_tedge_eq: "set_tedge E i g = g\<lparr>tedges := tedges g @ node_tedge E i\<rparr>"
  by (simp add: set_tedge_def node_tedge_def add_tedge_def)


lemma node_loop_node_count: "node_count (snd (node_loop E is g)) = node_count g"
proof (induction "is" arbitrary: g)
  case Nil
  then show ?case by simp
next
  case (Cons i js)
  obtain r g' where nl: "neighbor_loop E i (e_idx_values E ! i) g_neighbor_offsets (set_tedge E i g) = (r, g')"
    by (cases "neighbor_loop E i (e_idx_values E ! i) g_neighbor_offsets (set_tedge E i g)")
  have nc: "node_count g' = node_count g"
    using neighbor_loop_keeps [of E i "e_idx_values E ! i" g_neighbor_offsets "set_tedge E i g"] nl
    by (simp add: set_tedge_eq)
  show ?case
  proof (cases r)
    case None
    then show ?thesis using nl nc Cons [of g'] by simp
  next
    case (Some e)
    then show ?thesis using nl nc by simp
  qed
qed

lemma node_loop_tedges_subset:
  "set (tedges (snd (node_loop E is g))) \<subseteq> set (tedges g) \<union> set (concat (map (node_tedge E) is))"
proof (induction "is" arbitrary: g)
  case Nil
  then show ?case by simp
next
  case (Cons i js)
  obtain r g' where nl: "neighbor_loop E i (e_idx_values E ! i) g_neighbor_offsets (set_tedge E i g) = (r, g')"
    by (cases "neighbor_loop E i (e_idx_values E ! i) g_neighbor_offsets (set_tedge E i g)")
  have te: "tedges g' = tedges g @ node_tedge E i"
    using neighbor_loop_keeps [of E i "e_idx_values E ! i" g_neighbor_offsets "set_tedge E i g"] nl
    by (simp add: set_tedge_eq)
  show ?case
  proof (cases r)
    case None
    then show ?thesis using nl te Cons [of g'] by auto
  next
    case (Some e)
    then show ?thesis using nl te by auto
  qed
qed


lemma node_loop_None:
  "fst (node_loop E is g) = None \<Longrightarrow>
     tedges (snd (node_loop E is g)) = tedges g @ concat (map (node_tedge E) is)
     \<and> edges (snd (node_loop E is g)) = edges g @ concat (map (node_edges E) is)"
proof (induction "is" arbitrary: g)
  case Nil
  then show ?case by simp
next
  case (Cons i js)
  obtain r g' where nl: "neighbor_loop E i (e_idx_values E ! i) g_neighbor_offsets (set_tedge E i g) = (r, g')"
    by (cases "neighbor_loop E i (e_idx_values E ! i) g_neighbor_offsets (set_tedge E i g)")
  from Cons.prems nl have r: "r = None"
    by (cases r) simp_all
  have te: "tedges g' = tedges g @ node_tedge E i"
    using neighbor_loop_keeps [of E i "e_idx_values E ! i" g_neighbor_offsets "set_tedge E i g"] nl
    by (simp add: set_tedge_eq)
  have ed: "edges g' = edges g @ node_edges E i"
    using neighbor_loop_None [of E i "e_idx_values E ! i" g_neighbor_offsets "set_tedge E i g"] nl r
    by (simp add: set_tedge_eq node_edges_def)
  from Cons.prems nl r have "fst (node_loop E js g') = None" by simp
  from Cons.IH [OF this] show ?case using nl r te ed by simp
qed

lemma node_loop_no_raise:
  "\<forall>i\<in>set is. \<forall>off\<in>set g_neighbor_offsets. \<forall>e. neighbor_step E i (e_idx_values E ! i) off \<noteq> Raise e
     \<Longrightarrow> fst (node_loop E is g) = None"
proof (induction "is" arbitrary: g)
  case Nil
  then show ?case by simp
next
  case (Cons i js)
  obtain r g' where nl: "neighbor_loop E i (e_idx_values E ! i) g_neighbor_offsets (set_tedge E i g) = (r, g')"
    by (cases "neighbor_loop E i (e_idx_values E ! i) g_neighbor_offsets (set_tedge E i g)")
  have "fst (neighbor_loop E i (e_idx_values E ! i) g_neighbor_offsets (set_tedge E i g)) = None"
    by (rule neighbor_loop_no_raise) (use Cons.prems in simp)
  with nl have r: "r = None" by simp
  from Cons.prems have "fst (node_loop E js g') = None"
    by (intro Cons.IH) simp
  then show ?case using nl r by simp
qed

subsection \<open>The graph that \<^verbatim>\<open>build_graph\<close> leaves\<close>



lemma raw_pos_active:
  assumes "in_grid d c" "sat d c > 0"
  shows "non_zero_densities d c"
proof -
  obtain a b e where c: "c = (a, b, e)" by (cases c)
  let ?A = "set (concat (map (\<lambda>b'. map (\<lambda>c''. sval d a b' c'') (window (sz d) e)) (window (sy d) b)))"
  from assms(1) have "b \<in> set (window (sy d) b)" "e \<in> set (window (sz d) e)"
    by (simp_all add: in_grid_def c window_def)
  then have "sval d a b e \<in> ?A" by auto
  moreover have "finite ?A" by simp
  ultimately have "sval d a b e \<le> Max ?A" by (rule_tac Max_ge)
  with assms(2) show ?thesis
    by (simp add: non_zero_densities_def MaxPool3d_def c sat_def)
qed


lemma build_graph_unfold:
  assumes "no_unit_axis dens"
    and "mask_index edit_attn dens (active_idx dens) = Inr ev"
    and "mask_index obj_attn dens (active_idx dens) = Inr ov"
    and "select_seeds randperm ev ov = Inr (ei, oi)"
  shows "build_graph get_segment randperm feats dens edit_attn obj_attn K sigma =
     (case node_loop (make_env feats dens (active_idx dens) (node_dict dens) ev ov ei oi
                        [0..<length (active_idx dens)] K sigma)
             [0..<length (active_idx dens)]
             \<lparr>node_count = length (active_idx dens), tedges = [], edges = []\<rparr> of
        (Some e, g') \<Rightarrow> (Inl e, g')
      | (None, g') \<Rightarrow>
          (Inr (map (\<lambda>i. get_segment g' ([0..<length (active_idx dens)] ! i))
                  [0..<length (active_idx dens)], active_idx dens), g'))"
proof -
  from assms(1) have z: "\<not> (sx dens = 0 \<or> sy dens = 0 \<or> sz dens = 0)"
    by (auto simp: no_unit_axis_def)
  show ?thesis
    using assms(2,3,4) z
    by (simp add: build_graph_def idx_values_of_rows [OF assms(1)] idx_dict_of_rows
        add_nodes_def empty_graph_def Let_def)
qed

lemma build_graph_loop:
  assumes "no_unit_axis dens"
    and "mask_index edit_attn dens (active_idx dens) = Inr ev"
    and "mask_index obj_attn dens (active_idx dens) = Inr ov"
    and "select_seeds randperm ev ov = Inr (ei, oi)"
    and "build_graph get_segment randperm feats dens edit_attn obj_attn K sigma = (res, g)"
  shows "g = snd (node_loop (make_env feats dens (active_idx dens) (node_dict dens) ev ov ei oi
                        [0..<length (active_idx dens)] K sigma)
             [0..<length (active_idx dens)]
             \<lparr>node_count = length (active_idx dens), tedges = [], edges = []\<rparr>)
     \<and> ((\<exists>r. res = Inr r) \<longleftrightarrow>
         fst (node_loop (make_env feats dens (active_idx dens) (node_dict dens) ev ov ei oi
                        [0..<length (active_idx dens)] K sigma)
             [0..<length (active_idx dens)]
             \<lparr>node_count = length (active_idx dens), tedges = [], edges = []\<rparr>) = None)"
  using assms(5) unfolding build_graph_unfold [OF assms(1,2,3,4)]
  by (auto split: prod.splits option.splits)

text \<open>
  A tensor of rows that kept an axis of size one only passes the loop filling the
  dictionary when it has no row; then \<^verbatim>\<open>torch.max\<close> raises on the empty tensor.
\<close>

lemma select_seeds_Nil: "select_seeds randperm [] ov = Inl RuntimeError"
  by (simp add: select_seeds_def)

lemma mask_index_Nil: "mask_index t d [] = Inr l \<Longrightarrow> l = []"
  by (auto simp: mask_index_def split: if_splits)

lemma build_graph_exit:
  assumes "build_graph get_segment randperm feats dens edit_attn obj_attn K sigma = (res, g)"
  shows "(edges g = [] \<and> tedges g = [] \<and> (\<exists>e. res = Inl e))
     \<or> (no_unit_axis dens
         \<and> (\<exists>ev ov ei oi. mask_index edit_attn dens (active_idx dens) = Inr ev
           \<and> mask_index obj_attn dens (active_idx dens) = Inr ov
           \<and> select_seeds randperm ev ov = Inr (ei, oi)))"
proof (cases "no_unit_axis dens")
  case True
  then have z: "\<not> (sx dens = 0 \<or> sy dens = 0 \<or> sz dens = 0)"
    by (auto simp: no_unit_axis_def)
  show ?thesis
    using assms True z
    by (auto simp: build_graph_def idx_values_of_rows [OF True] idx_dict_of_rows
        add_nodes_def empty_graph_def Let_def split: sum.splits prod.splits)
next
  case False
  show ?thesis
  proof (cases "sx dens = 0 \<or> sy dens = 0 \<or> sz dens = 0")
    case True
    with assms show ?thesis by (auto simp: build_graph_def empty_graph_def)
  next
    case nz: False
    show ?thesis
    proof (cases "idx_values_of dens")
      case (Inl e)
      with assms nz show ?thesis by (auto simp: build_graph_def empty_graph_def)
    next
      case (Inr t)
      with False nz obtain vs where t: "t = NestedRows vs" "vs = active_idx dens"
        by (auto simp: idx_values_of_def no_unit_axis_def split: if_splits)
      show ?thesis
      proof (cases "vs = []")
        case True
        with assms nz Inr t show ?thesis
          by (auto simp: build_graph_def idx_dict_of_def add_nodes_def empty_graph_def Let_def
              select_seeds_Nil dest!: mask_index_Nil split: sum.splits)
      next
        case ne: False
        with assms nz Inr t show ?thesis
          by (auto simp: build_graph_def idx_dict_of_def add_nodes_def empty_graph_def Let_def)
      qed
    qed
  qed
qed

lemma mask_index_length: "mask_index t d vs = Inr l \<Longrightarrow> length l = length vs"
  by (auto simp: mask_index_def split: if_splits)

lemma set_nonzero: "set (nonzero bs) \<subseteq> {..<length bs}"
  by (auto simp: nonzero_def)

lemma set_topk: "topk vals k = Inr idxs \<Longrightarrow> set idxs \<subseteq> {..<length vals}"
proof -
  assume "topk vals k = Inr idxs"
  then have "idxs = take k (sort_key (\<lambda>i. - (vals ! i)) [0..<length vals])"
    by (auto simp: topk_def split: if_splits)
  then have "set idxs \<subseteq> set (sort_key (\<lambda>i. - (vals ! i)) [0..<length vals])"
    using set_take_subset [of k "sort_key (\<lambda>i. - (vals ! i)) [0..<length vals]"] by simp
  then show ?thesis by auto
qed

lemma select_seeds_edit_bound:
  assumes "select_seeds randperm ev ov = Inr (ei, oi)" and "length ov = length ev"
  shows "set ei \<subseteq> {..<length ev}"
proof -
  obtain top where top: "torch_max (map fst (map2 softmax2 ev ov)) = Inr top"
    using assms(1) by (cases "torch_max (map fst (map2 softmax2 ev ov))") (simp_all add: select_seeds_def)
  show ?thesis
  proof (cases "length (filter id (map (\<lambda>p. fst p \<ge> 0.992 * top) (map2 softmax2 ev ov))) < 300")
    case True
    with assms(1) top obtain ot where "topk ev 300 = Inr ei" and "topk ov 200 = Inr ot"
      by (auto simp: select_seeds_def Let_def split: sum.splits)
    then show ?thesis using set_topk by blast
  next
    case False
    with assms(1) top have "ei = nonzero (map (\<lambda>p. fst p \<ge> 0.992 * top) (map2 softmax2 ev ov))"
      by (auto simp: select_seeds_def Let_def)
    then show ?thesis using set_nonzero [of "map (\<lambda>p. fst p \<ge> 0.992 * top) (map2 softmax2 ev ov)"] assms(2)
      by simp
  qed
qed

text \<open>
  C10. A node index that is in both seed lists only ever gets the terminal edge of an edit
  seed, (infinite source capacity, zero sink capacity): the membership in the edit seeds is
  tested first. When \<^verbatim>\<open>build_graph\<close> returns, the node has that edge.
\<close>

theorem edit_terminal_wins:
  assumes ev: "mask_index edit_attn dens (active_idx dens) = Inr ev"
    and ov: "mask_index obj_attn dens (active_idx dens) = Inr ov"
    and seeds: "select_seeds randperm ev ov = Inr (edit_idxs, obj_idxs)"
    and i: "i \<in> set edit_idxs" "i \<in> set obj_idxs"
    and bg: "build_graph get_segment randperm feats dens edit_attn obj_attn K sigma = (res, g)"
  shows "(\<forall>cs ct. (i, cs, ct) \<in> set (tedges g) \<longrightarrow> cs = Infinity \<and> ct = Fin 0)
     \<and> ((\<exists>r. res = Inr r) \<longrightarrow> (i, Infinity, Fin 0) \<in> set (tedges g))"
proof -
  let ?N = "length (active_idx dens)"
  let ?E = "make_env feats dens (active_idx dens) (node_dict dens) ev ov edit_idxs obj_idxs
              [0..<?N] K sigma"
  let ?g0 = "\<lparr>node_count = ?N, tedges = [], edges = []\<rparr>"
  show ?thesis
  proof (cases "no_unit_axis dens")
    case False
    with build_graph_exit [OF bg] show ?thesis by auto
  next
    case ax: True
  from build_graph_loop [OF ax ev ov seeds bg]
  have g: "g = snd (node_loop ?E [0..<?N] ?g0)"
    and res: "(\<exists>r. res = Inr r) \<longleftrightarrow> fst (node_loop ?E [0..<?N] ?g0) = None"
    by simp_all
  have len: "length ev = ?N" "length ov = ?N"
    using ev ov by (simp_all add: mask_index_length)
  with select_seeds_edit_bound [OF seeds] i(1) have iN: "i < ?N" by auto
  have nt: "\<And>j. j < ?N \<Longrightarrow> node_tedge ?E j =
      (if j \<in> set edit_idxs then [(j, Infinity, Fin 0)]
       else if j \<in> set obj_idxs then [(j, Fin 0, Infinity)] else [])"
    by (simp add: node_tedge_def make_env_def)
  have sub: "set (tedges g) \<subseteq> set (concat (map (node_tedge ?E) [0..<?N]))"
    using node_loop_tedges_subset [of ?E "[0..<?N]" ?g0] g by simp
  have a: "\<forall>cs ct. (i, cs, ct) \<in> set (tedges g) \<longrightarrow> cs = Infinity \<and> ct = Fin 0"
  proof (intro allI impI)
    fix cs ct assume "(i, cs, ct) \<in> set (tedges g)"
    with sub obtain j where j: "j < ?N" "(i, cs, ct) \<in> set (node_tedge ?E j)" by auto
    from j(2) nt [OF j(1)] have "j = i" by (auto split: if_splits)
    with j(2) nt [OF iN] i(1) show "cs = Infinity \<and> ct = Fin 0" by simp
  qed
  have b: "(\<exists>r. res = Inr r) \<longrightarrow> (i, Infinity, Fin 0) \<in> set (tedges g)"
  proof
    assume "\<exists>r. res = Inr r"
    with res have "fst (node_loop ?E [0..<?N] ?g0) = None" by simp
    from node_loop_None [OF this] g
    have "tedges g = concat (map (node_tedge ?E) [0..<?N])" by simp
    moreover have "(i, Infinity, Fin 0) \<in> set (node_tedge ?E i)"
      using nt [OF iN] i(1) by simp
    ultimately show "(i, Infinity, Fin 0) \<in> set (tedges g)"
      using iN by auto
  qed
  from a b show ?thesis by simp
  qed
qed





subsection \<open>The slab example: grid and nodes\<close>

lemma length_idx_grid: "length (idx_grid x y z) = x * y * z"
  by (simp add: idx_grid_def length_product)

lemma all_active_idx_values:
  assumes "\<And>c. in_grid d c \<Longrightarrow> non_zero_densities d c"
  shows "active_idx d = idx_grid (sx d) (sy d) (sz d)"
  unfolding active_idx_def
  by (rule filter_True) (use assms in \<open>auto simp: set_idx_grid in_grid_def\<close>)

lemma slab_active: "in_grid slab_dens c \<Longrightarrow> non_zero_densities slab_dens c"
proof -
  assume g: "in_grid slab_dens c"
  obtain a b e where c: "c = (a, b, e)" by (cases c)
  from g have ig: "in_grid slab_dens (a, b, 0)" by (simp add: in_grid_def c slab_dens_def)
  have "sat slab_dens (a, b, 0) > 0" by (simp add: sat_def slab_dens_def)
  let ?A = "set (concat (map (\<lambda>b'. map (\<lambda>c''. sval slab_dens a b' c'') (window (sz slab_dens) e)) (window (sy slab_dens) b)))"
  from g have "b \<in> set (window (sy slab_dens) b)" "0 \<in> set (window (sz slab_dens) e)"
    by (auto simp: in_grid_def c window_def slab_dens_def)
  then have "sval slab_dens a b 0 \<in> ?A" by auto
  moreover have "finite ?A" by simp
  ultimately have "sval slab_dens a b 0 \<le> Max ?A" by (rule_tac Max_ge)
  then show ?thesis
    by (simp add: non_zero_densities_def MaxPool3d_def c) (simp add: slab_dens_def)
qed

lemma slab_idx_values: "active_idx slab_dens = idx_grid 76 2 2"
  using all_active_idx_values [of slab_dens] slab_active by (simp add: slab_dens_def)

lemma slab_num_nodes: "length (active_idx slab_dens) = 304"
  by (simp add: slab_idx_values length_idx_grid)

lemma idx_grid_nth:
  assumes "k < x * y * z"
  shows "idx_grid x y z ! k = (int (k div (y * z)), int ((k mod (y * z)) div z), int (k mod z))"
proof -
  have lp: "length (List.product [0..int y - 1] [0..int z - 1]) = y * z"
    by (simp add: length_product)
  from assms have yz: "0 < y * z" by (cases "y * z") auto
  have k1: "k div (y * z) < x" using assms yz
    by (simp add: less_mult_imp_div_less mult.assoc)
  have k2: "k mod (y * z) < y * z" using yz by simp
  have "idx_grid x y z ! k =
      ([0..int x - 1] ! (k div (y * z)), List.product [0..int y - 1] [0..int z - 1] ! (k mod (y * z)))"
    unfolding idx_grid_def using assms lp by (subst product_nth) (simp_all add: mult.assoc)
  also have "List.product [0..int y - 1] [0..int z - 1] ! (k mod (y * z))
      = ([0..int y - 1] ! ((k mod (y * z)) div z), [0..int z - 1] ! ((k mod (y * z)) mod z))"
    using k2 by (subst product_nth) simp_all
  finally show ?thesis
    using k1 k2 yz by (simp add: less_mult_imp_div_less mod_mod_cancel)
qed

subsection \<open>Seed selection on two levels of attention\<close>

lemma softmax2_pos: "0 < fst (softmax2 a b)"
  by (simp add: softmax2_def add_pos_pos)

lemma softmax2_obj_dominant: "fst (softmax2 a b) < snd (softmax2 a b) \<longleftrightarrow> a < b"
proof -
  have s: "0 < exp a + exp b" by (simp add: add_pos_pos)
  then have "exp a / (exp a + exp b) < exp b / (exp a + exp b) \<longleftrightarrow> exp a < exp b"
    by (simp add: divide_less_cancel)
  then show ?thesis by (simp add: softmax2_def)
qed

lemma torch_max_eq_Max:
  assumes "xs \<noteq> []"
  shows "torch_max xs = Inr (Max (set xs))"
proof (cases xs)
  case Nil
  with assms show ?thesis by simp
next
  case (Cons a l)
  then show ?thesis using Max.set_eq_fold [of a l] by simp
qed

lemma torch_max_greatest:
  assumes "v \<in> set xs" and "\<forall>x\<in>set xs. x \<le> v"
  shows "torch_max xs = Inr v"
proof -
  from assms(1) have ne: "xs \<noteq> []" by auto
  have "Max (set xs) = v"
    by (rule Max_eqI) (use assms in auto)
  with torch_max_eq_Max [OF ne] show ?thesis by simp
qed


lemma nonzero_two_level:
  "nonzero (replicate m True @ replicate k False) = [0..<m]"
proof -
  let ?P = "\<lambda>i. (replicate m True @ replicate k False) ! i"
  have f1: "filter ?P [0..<m] = [0..<m]"
    by (rule filter_True) (simp add: nth_append)
  have f2: "filter ?P [m..<m + k] = []"
    by (rule filter_False) (auto simp: nth_append)
  have "nonzero (replicate m True @ replicate k False) = filter ?P ([0..<m] @ [m..<m + k])"
    by (simp only: nonzero_def length_append length_replicate upt_add_eq_append [OF le0])
  also have "\<dots> = filter ?P [0..<m] @ filter ?P [m..<m + k]"
    by (simp only: filter_append)
  also have "\<dots> = [0..<m]"
    by (simp only: f1 f2 append_Nil2)
  finally show ?thesis .
qed

lemma nonzero_all: "nonzero (replicate n True) = [0..<n]"
  using nonzero_two_level [of n 0] by simp


lemma select_seeds_two_level:
  assumes m: "300 \<le> m"
    and lo: "fst (softmax2 a2 b2) < 0.992 * fst (softmax2 a1 b1)"
    and ab: "a1 < b1" "a2 < b2"
  shows "select_seeds rp (replicate m a1 @ replicate k a2) (replicate m b1 @ replicate k b2)
     = Inr ([0..<m], map (\<lambda>j. [0..<m + k] ! j) (take 5000 (rp (m + k))))"
proof -
  let ?P1 = "softmax2 a1 b1" and ?P2 = "softmax2 a2 b2"
  let ?probs = "replicate m ?P1 @ replicate k ?P2"
  have probs: "map2 softmax2 (replicate m a1 @ replicate k a2) (replicate m b1 @ replicate k b2) = ?probs"
    by (simp add: zip_replicate)
  have le: "fst ?P2 \<le> fst ?P1"
    using lo softmax2_pos [of a1 b1] by simp
  have mpos: "0 < m" using m by simp
  have top: "torch_max (map fst ?probs) = Inr (fst ?P1)"
    by (rule torch_max_greatest) (use le mpos in auto)
  have h1: "(0.992 * fst ?P1 \<le> fst ?P1) = True"
    using softmax2_pos [of a1 b1] by simp
  have h2: "(0.992 * fst ?P1 \<le> fst ?P2) = False"
    using lo by simp
  have mask: "map (\<lambda>p. fst p \<ge> 0.992 * fst ?P1) ?probs = replicate m True @ replicate k False"
    by (simp only: map_append map_replicate h1 h2)
  have o1: "(fst ?P1 < snd ?P1) = True" "(fst ?P2 < snd ?P2) = True"
    using ab by (simp_all add: softmax2_obj_dominant)
  have omask: "map (\<lambda>p. snd p > fst p) ?probs = replicate (m + k) True"
    by (simp only: map_append map_replicate o1 replicate_add)
  have cnt: "(length (filter id (replicate m True @ replicate k False)) < 300) = False"
    using m by simp
  have "select_seeds rp (replicate m a1 @ replicate k a2) (replicate m b1 @ replicate k b2)
      = (if length (filter id (map (\<lambda>p. fst p \<ge> 0.992 * fst ?P1) ?probs)) < 300
         then (case topk (replicate m a1 @ replicate k a2) 300 of
                 Inl e \<Rightarrow> Inl e
               | Inr edit_topk \<Rightarrow>
                   (case topk (replicate m b1 @ replicate k b2) 200 of
                      Inl e \<Rightarrow> Inl e
                    | Inr obj_topk \<Rightarrow> Inr (edit_topk, obj_topk)))
         else Inr (nonzero (map (\<lambda>p. fst p \<ge> 0.992 * fst ?P1) ?probs),
                   map (\<lambda>j. nonzero (map (\<lambda>p. snd p > fst p) ?probs) ! j)
                     (take 5000 (rp (length (nonzero (map (\<lambda>p. snd p > fst p) ?probs)))))))"
    unfolding select_seeds_def probs Let_def top by (simp only: sum.case)
  also have "\<dots> = Inr ([0..<m], map (\<lambda>j. [0..<m + k] ! j) (take 5000 (rp (m + k))))"
    unfolding mask omask cnt
    by (simp only: if_False nonzero_two_level nonzero_all length_upt minus_nat.diff_0)
  finally show ?thesis .
qed

subsection \<open>The slab example: seeds\<close>

lemma map_two_level:
  assumes "length xs = m + n" and "\<And>k. k < m + n \<Longrightarrow> f (xs ! k) = (if k < m then v1 else v2)"
  shows "map f xs = replicate m v1 @ replicate n v2"
proof (rule nth_equalityI)
  show "length (map f xs) = length (replicate m v1 @ replicate n v2)"
    using assms(1) by simp
next
  fix k assume "k < length (map f xs)"
  then have k: "k < m + n" using assms(1) by simp
  then show "map f xs ! k = (replicate m v1 @ replicate n v2) ! k"
    using assms by (auto simp: nth_append)
qed

lemma slab_nth:
  assumes "k < 304"
  shows "active_idx slab_dens ! k = (int (k div 4), int ((k mod 4) div 2), int (k mod 2))"
  using idx_grid_nth [of k 76 2 2] assms by (simp add: slab_idx_values)

lemma slab_edit_vals:
  "mask_index slab_edit slab_dens (active_idx slab_dens) = Inr (replicate 300 0 @ replicate 4 0)"
proof -
  have "map (sat slab_edit) (active_idx slab_dens) = replicate 300 0 @ replicate 4 0"
    by (rule map_two_level) (simp_all add: slab_num_nodes slab_nth sat_def slab_edit_def)
  then show ?thesis
    by (simp add: mask_index_def sshape_def slab_edit_def slab_dens_def)
qed

lemma slab_obj_vals:
  "mask_index slab_obj slab_dens (active_idx slab_dens) = Inr (replicate 300 1 @ replicate 4 2)"
proof -
  have "map (sat slab_obj) (active_idx slab_dens) = replicate 300 1 @ replicate 4 2"
  proof (rule map_two_level)
    show "length (active_idx slab_dens) = 300 + 4" by (simp add: slab_num_nodes)
  next
    fix k :: nat assume k: "k < 300 + 4"
    have "(int (k div 4) < 75) = (k < 300)" by auto
    with k show "sat slab_obj (active_idx slab_dens ! k) = (if k < 300 then 1 else 2)"
      by (simp add: slab_nth sat_def slab_obj_def)
  qed
  then show ?thesis
    by (simp add: mask_index_def sshape_def slab_obj_def slab_dens_def)
qed

lemma exp_one_ge_two: "(2::real) \<le> exp 1"
  using exp_ge_add_one_self [of "1::real"] by simp

lemma slab_softmax_gap: "fst (softmax2 0 2) < 0.992 * fst (softmax2 0 1)"
proof -
  have e2: "exp (2::real) = exp 1 * exp 1"
    using exp_add [of "1::real" 1] by simp
  define t :: real where "t = exp 1"
  have t2: "2 \<le> t" using exp_one_ge_two by (simp add: t_def)
  define u :: real where "u = t * t"
  from t2 have "2 * t \<le> u" unfolding u_def by (simp add: mult_right_mono)
  with t2 have "1 + t < 0.992 * (1 + u)" by simp
  then have "1 + exp (1::real) < 0.992 * (1 + exp 2)"
    unfolding e2 u_def t_def .
  moreover have "0 < 1 + exp (1::real)" "0 < 1 + exp (2::real)"
    by (simp_all add: add_pos_pos)
  ultimately have "1 / (1 + exp (2::real)) < 0.992 / (1 + exp 1)"
    by (simp add: field_simps)
  then show ?thesis by (simp add: softmax2_def)
qed

lemma slab_seeds:
  "select_seeds id_perm (replicate 300 0 @ replicate 4 0) (replicate 300 1 @ replicate 4 2)
     = Inr ([0..<300], [0..<304])"
proof -
  have "map (\<lambda>j. [0..<300 + 4] ! j) (take 5000 (id_perm (300 + 4))) = [0..<304]"
    using map_nth [of "[0..<304]"] by (simp add: id_perm_def)
  with select_seeds_two_level [of 300 0 2 0 1 id_perm 4, OF _ slab_softmax_gap]
  show ?thesis by simp
qed

subsection \<open>When \<^verbatim>\<open>build_graph\<close> returns\<close>

lemma active_idx_index:
  assumes "in_grid d c" "non_zero_densities d c"
  shows "\<exists>m<length (active_idx d). active_idx d ! m = c"
proof -
  from assms have "c \<in> set (active_idx d)" by (simp add: set_active_idx)
  then show ?thesis by (auto simp: in_set_conv_nth)
qed

lemma neighbor_step_not_Raise:
  assumes i: "i < length (active_idx dens)"
    and fs: "fx feats = sx dens" "fy feats = sy dens" "fz feats = sz dens"
    and big: "sx dens \<le> length ev" "sy dens \<le> length ev" "sz dens \<le> length ev"
    and len: "length ov = length ev"
  shows "neighbor_step (make_env feats dens (active_idx dens) (node_dict dens) ev ov ei oi nodes K sigma)
           i (active_idx dens ! i) off \<noteq> Raise e"
proof -
  let ?E = "make_env feats dens (active_idx dens) (node_dict dens) ev ov ei oi nodes K sigma"
  obtain p q r where v: "active_idx dens ! i = (p, q, r)"
    by (cases "active_idx dens ! i")
  obtain a b c where n: "cadd (p, q, r) off = (a, b, c)"
    by (cases "cadd (p, q, r) off")
  from idx_values_nth_in_grid [OF i] have vin: "in_grid dens (p, q, r)" by (simp add: v)
  have fb: "f_in_bounds feats (p, q, r)"
    using vin fs by (simp add: f_in_bounds_def in_grid_def)
  have pb: "p < int (length ev)" "q < int (length ev)" "r < int (length ev)"
    using vin big by (simp_all add: in_grid_def)
  have key: "\<exists>m. node_dict dens (gen_id (a, b, c) (int (sx dens)) (int (sy dens))) = Some m
       \<and> f_in_bounds feats (a, b, c)"
    if "in_grid dens (a, b, c)" "sat dens (a, b, c) > 0"
  proof -
    from raw_pos_active [OF that] have "non_zero_densities dens (a, b, c)" .
    from active_idx_index [OF that(1) this] obtain m where
      m: "m < length (active_idx dens)" "active_idx dens ! m = (a, b, c)" by blast
    from node_dict_node [OF m(1)] m(2)
    have "node_dict dens (gen_id (a, b, c) (int (sx dens)) (int (sy dens))) = Some m" by simp
    moreover have "f_in_bounds feats (a, b, c)"
      using that(1) fs by (simp add: f_in_bounds_def in_grid_def)
    ultimately show ?thesis by blast
  qed
  show ?thesis
  proof (cases "in_grid dens (a, b, c) \<and> sat dens (a, b, c) > 0")
    case True
    with key obtain m where "node_dict dens (gen_id (a, b, c) (int (sx dens)) (int (sy dens))) = Some m"
      "f_in_bounds feats (a, b, c)" by blast
    then show ?thesis
      using fb pb len by (simp add: neighbor_step_def v n make_env_def del: cadd.simps)
  next
    case False
    then show ?thesis
      by (auto simp: neighbor_step_def v n make_env_def in_grid_def simp del: cadd.simps)
  qed
qed

lemma build_graph_returns:
  assumes ax: "no_unit_axis dens"
    and ev: "mask_index edit_attn dens (active_idx dens) = Inr ev"
    and ov: "mask_index obj_attn dens (active_idx dens) = Inr ov"
    and seeds: "select_seeds randperm ev ov = Inr (ei, oi)"
    and fs: "fx feats = sx dens" "fy feats = sy dens" "fz feats = sz dens"
    and big: "sx dens \<le> length (active_idx dens)" "sy dens \<le> length (active_idx dens)"
      "sz dens \<le> length (active_idx dens)"
    and E: "E = make_env feats dens (active_idx dens) (node_dict dens) ev ov ei oi
                  [0..<length (active_idx dens)] K sigma"
    and g: "g = \<lparr>node_count = length (active_idx dens),
                 tedges = concat (map (node_tedge E) [0..<length (active_idx dens)]),
                 edges = concat (map (node_edges E) [0..<length (active_idx dens)])\<rparr>"
  shows "build_graph get_segment randperm feats dens edit_attn obj_attn K sigma =
     (Inr (map (get_segment g) [0..<length (active_idx dens)], active_idx dens), g)"
proof -
  let ?N = "length (active_idx dens)"
  let ?g0 = "\<lparr>node_count = ?N, tedges = [], edges = []\<rparr>"
  have len: "length ev = ?N" "length ov = ?N"
    using ev ov by (simp_all add: mask_index_length)
  have "\<forall>i\<in>set [0..<?N]. \<forall>off\<in>set g_neighbor_offsets. \<forall>e.
          neighbor_step E i (e_idx_values E ! i) off \<noteq> Raise e"
  proof (intro ballI allI)
    fix i off e assume "i \<in> set [0..<?N]"
    then have i: "i < ?N" by simp
    have "e_idx_values E = active_idx dens" by (simp add: E make_env_def)
    then show "neighbor_step E i (e_idx_values E ! i) off \<noteq> Raise e"
      using neighbor_step_not_Raise [OF i fs, of ev ov ei oi "[0..<?N]" K sigma off e] big len
      by (simp add: E)
  qed
  then have none: "fst (node_loop E [0..<?N] ?g0) = None"
    by (rule node_loop_no_raise)
  from node_loop_None [OF none] node_loop_node_count [of E "[0..<?N]" ?g0]
  have "snd (node_loop E [0..<?N] ?g0) = g"
    by (intro graph.equality) (simp_all add: g)
  with none have nl: "node_loop E [0..<?N] ?g0 = (None, g)"
    by (simp add: prod_eq_iff)
  have "map (\<lambda>i. get_segment g ([0..<?N] ! i)) [0..<?N] = map (get_segment g) [0..<?N]"
    by (rule map_cong) simp_all
  with nl show ?thesis
    unfolding build_graph_unfold [OF ax ev ov seeds] E [symmetric] by simp
qed

subsection \<open>The slab example: the run\<close>

lemma slab_ax: "no_unit_axis slab_dens"
  by (simp add: no_unit_axis_def slab_dens_def)

lemma slab_run_eq:
  "slab_run = (Inr (map (slab_segment slab_graph) [0..<304], active_idx slab_dens), slab_graph)"
proof -
  have "build_graph slab_segment id_perm slab_feats slab_dens slab_edit slab_obj 5 (1 / 10) =
     (Inr (map (slab_segment slab_graph) [0..<length (active_idx slab_dens)], active_idx slab_dens),
      slab_graph)"
  proof (rule build_graph_returns [OF slab_ax slab_edit_vals slab_obj_vals slab_seeds])
    show "slab_env = make_env slab_feats slab_dens (active_idx slab_dens) (node_dict slab_dens)
        (replicate 300 0 @ replicate 4 0) (replicate 300 1 @ replicate 4 2) [0..<300] [0..<304]
        [0..<length (active_idx slab_dens)] 5 (1 / 10)"
      by (simp add: slab_env_def slab_num_nodes)
    show "slab_graph = \<lparr>node_count = length (active_idx slab_dens),
        tedges = concat (map (node_tedge slab_env) [0..<length (active_idx slab_dens)]),
        edges = concat (map (node_edges slab_env) [0..<length (active_idx slab_dens)])\<rparr>"
      by (simp add: slab_graph_def slab_num_nodes)
  qed (simp_all add: slab_feats_def slab_dens_def slab_num_nodes [unfolded slab_dens_def])
  then show ?thesis by (simp add: slab_run_def slab_num_nodes)
qed

lemma slab_node_tedge:
  "i < 304 \<Longrightarrow> node_tedge slab_env i =
     (if i < 300 then [(i, Infinity, Fin 0)] else [(i, Fin 0, Infinity)])"
  by (simp add: node_tedge_def slab_env_def make_env_def)

lemma concat_map_upt_mem: "t \<in> set (concat (map f [0..<n])) \<longleftrightarrow> (\<exists>i<n. t \<in> set (f i))"
  by auto

lemma slab_tedges_mem: "t \<in> set (tedges slab_graph) \<longleftrightarrow> (\<exists>i<304. t \<in> set (node_tedge slab_env i))"
  unfolding slab_graph_def graph.simps by (rule concat_map_upt_mem)


lemma slab_tedge_edit: "i < 300 \<Longrightarrow> (i, Infinity, Fin 0) \<in> set (tedges slab_graph)"
proof -
  assume i: "i < 300"
  then have "i < 304" by simp
  moreover from this i have "(i, Infinity, Fin 0) \<in> set (node_tedge slab_env i)"
    by (simp add: slab_node_tedge)
  ultimately show ?thesis unfolding slab_tedges_mem by blast
qed

lemma slab_tedge_only:
  assumes "(i, cs, ct) \<in> set (tedges slab_graph)"
  shows "i < 304 \<and> (cs, ct) = (if i < 300 then (Infinity, Fin 0) else (Fin 0, Infinity))"
proof -
  from assms obtain k where k: "k < 304" "(i, cs, ct) \<in> set (node_tedge slab_env k)"
    unfolding slab_tedges_mem by blast
  from k(2) show ?thesis
    unfolding slab_node_tedge [OF k(1)] using k(1) by (simp split: if_splits)
qed

subsection \<open>The slab example: edges\<close>























subsection \<open>The slab example: capacities and terminals\<close>

theorem edit_terminal_wins_witness:
  "mask_index slab_edit slab_dens (active_idx slab_dens) = Inr (replicate 300 0 @ replicate 4 0)
   \<and> mask_index slab_obj slab_dens (active_idx slab_dens) = Inr (replicate 300 1 @ replicate 4 2)
   \<and> select_seeds id_perm (replicate 300 0 @ replicate 4 0) (replicate 300 1 @ replicate 4 2)
       = Inr ([0..<300], [0..<304])
   \<and> (0::nat) \<in> set [0..<300] \<and> (0::nat) \<in> set [0..<304]
   \<and> build_graph slab_segment id_perm slab_feats slab_dens slab_edit slab_obj 5 (1 / 10)
       = (Inr (map (slab_segment slab_graph) [0..<304], active_idx slab_dens), slab_graph)
   \<and> (0, Infinity, Fin 0) \<in> set (tedges slab_graph)
   \<and> (0, Fin 0, Infinity) \<notin> set (tedges slab_graph)"
proof -
  have a: "(0::nat) \<in> set [0..<300]" by simp
  have b: "(0::nat) \<in> set [0..<304]" by simp
  note run = slab_run_eq [unfolded slab_run_def]
  note w = edit_terminal_wins [OF slab_edit_vals slab_obj_vals slab_seeds a b run]
  from w have c: "(0, Infinity, Fin 0) \<in> set (tedges slab_graph)" by simp
  from w have d: "(0, Fin 0, Infinity) \<notin> set (tedges slab_graph)" by auto
  from slab_edit_vals slab_obj_vals slab_seeds a b run c d show ?thesis
    by (intro conjI)
qed


subsection \<open>Edge weights and feature distance\<close>





subsection \<open>An empty mask\<close>

lemma cube2_ax: "no_unit_axis (cube2 v)"
  by (simp add: no_unit_axis_def cube2_def)

lemma cube2_mask: "in_grid (cube2 v) c \<Longrightarrow> non_zero_densities (cube2 v) c \<longleftrightarrow> 0 < v"
proof -
  assume g: "in_grid (cube2 v) c"
  obtain a b e where c: "c = (a, b, e)" by (cases c)
  from g have "window 2 b \<noteq> []" "window 2 e \<noteq> []"
    by (auto simp: in_grid_def c cube2_def window_def)
  then have "set (concat (map (\<lambda>b'. map (\<lambda>c''. v) (window 2 e)) (window 2 b))) = {v}"
    by (cases "window 2 b"; cases "window 2 e") auto
  then show ?thesis
    by (simp add: non_zero_densities_def MaxPool3d_def c cube2_def)
qed

lemma cube2_empty: "active_idx (cube2 0) = []"
  unfolding active_idx_def by (simp add: filter_empty_conv set_idx_grid cube2_mask in_grid_def)


lemma torch_eq_all_refl: "torch_eq_all t t = Inr True"
  by (simp add: torch_eq_all_def bshape_def bdim_def list_all_iff)

lemma torch_eq_all_f_refl: "torch_eq_all_f t t = Inr True"
  by (simp add: torch_eq_all_f_def bdim_def list_all_iff)

lemma add_nodes_0: "add_nodes empty_graph 0 = ([], empty_graph)"
  by (simp add: add_nodes_def empty_graph_def)

lemma build_graph_empty:
  assumes "active_idx dens = []"
  shows "\<exists>e. build_graph get_segment randperm feats dens edit_attn obj_attn K sigma
           = (Inl e, empty_graph)"
proof (cases "sx dens = 0 \<or> sy dens = 0 \<or> sz dens = 0")
  case True
  then show ?thesis by (auto simp: build_graph_def)
next
  case nz: False
  show ?thesis
  proof (cases "idx_values_of dens")
    case (Inl e)
    with nz show ?thesis by (auto simp: build_graph_def)
  next
    case (Inr t)
    then have r: "rows_of t = []" and d: "\<exists>D. idx_dict_of t (int (sx dens)) (int (sy dens)) = Inr D"
      using assms by (auto simp: idx_values_of_def idx_dict_of_def split: if_splits)
    from d obtain D where D: "idx_dict_of t (int (sx dens)) (int (sy dens)) = Inr D" by blast
    show ?thesis
      using nz Inr r D assms
      by (auto simp: build_graph_def add_nodes_0 select_seeds_Nil Let_def
          dest!: mask_index_Nil split: sum.splits)
  qed
qed

lemma build_graph_empty_max:
  assumes "active_idx dens = []" and "no_unit_axis dens"
    and "sshape edit_attn = sshape dens" and "sshape obj_attn = sshape dens"
  shows "build_graph get_segment randperm feats dens edit_attn obj_attn K sigma
           = (Inl RuntimeError, empty_graph)"
proof -
  from assms(2) have z: "\<not> (sx dens = 0 \<or> sy dens = 0 \<or> sz dens = 0)"
    by (auto simp: no_unit_axis_def)
  show ?thesis
    using z assms(1,3,4)
    by (simp add: build_graph_def idx_values_of_rows [OF assms(2)] idx_dict_of_def add_nodes_0
        mask_index_def select_seeds_Nil)
qed

lemma get_edit_region_empty:
  assumes "active_idx (densities vol_mod_edit) = []"
  shows "\<exists>e g. get_edit_region get_segment randperm vol_mod_edit vol_mod_object vol_mod_output K sigma
           = (Some e, vol_mod_output, g)"
proof -
  from build_graph_empty [OF assms] obtain e where
    "build_graph get_segment randperm (sigmoid_f (features vol_mod_edit)) (densities vol_mod_edit)
       (attn vol_mod_edit) (attn vol_mod_object) K sigma = (Inl e, empty_graph)"
    by blast
  then show ?thesis
    by (auto simp: get_edit_region_def split: sum.splits)
qed

text \<open>
  C3 (amended). When no voxel is in the mask, \<^verbatim>\<open>build_graph\<close> raises with the graph
  still empty, and \<^verbatim>\<open>get_edit_region\<close> raises and leaves the output model as it was:
  no labeling is returned and no grid is written. When the grids have no axis of size one
  and the shapes agree, the error is the \<^verbatim>\<open>RuntimeError\<close> of \<^verbatim>\<open>torch.max\<close> on the empty
  tensor of probabilities.
\<close>

theorem empty_active_set_raises:
  assumes "active_idx (densities vol_mod_edit) = []"
  shows "(\<exists>e. build_graph get_segment randperm (sigmoid_f (features vol_mod_edit))
              (densities vol_mod_edit) (attn vol_mod_edit) (attn vol_mod_object) K sigma
           = (Inl e, empty_graph))
     \<and> (\<exists>e g. get_edit_region get_segment randperm vol_mod_edit vol_mod_object vol_mod_output K sigma
           = (Some e, vol_mod_output, g))
     \<and> (no_unit_axis (densities vol_mod_edit)
         \<and> sshape (attn vol_mod_edit) = sshape (densities vol_mod_edit)
         \<and> sshape (attn vol_mod_object) = sshape (densities vol_mod_edit)
         \<and> torch_eq_all (densities vol_mod_edit) (densities vol_mod_object) = Inr True
         \<and> torch_eq_all_f (features vol_mod_edit) (features vol_mod_object) = Inr True
        \<longrightarrow> get_edit_region get_segment randperm vol_mod_edit vol_mod_object vol_mod_output K sigma
           = (Some RuntimeError, vol_mod_output, Some empty_graph))"
proof (intro conjI impI)
  show "\<exists>e. build_graph get_segment randperm (sigmoid_f (features vol_mod_edit))
              (densities vol_mod_edit) (attn vol_mod_edit) (attn vol_mod_object) K sigma
           = (Inl e, empty_graph)"
    by (rule build_graph_empty [OF assms])
  show "\<exists>e g. get_edit_region get_segment randperm vol_mod_edit vol_mod_object vol_mod_output K sigma
           = (Some e, vol_mod_output, g)"
    by (rule get_edit_region_empty [OF assms])
next
  assume h: "no_unit_axis (densities vol_mod_edit)
         \<and> sshape (attn vol_mod_edit) = sshape (densities vol_mod_edit)
         \<and> sshape (attn vol_mod_object) = sshape (densities vol_mod_edit)
         \<and> torch_eq_all (densities vol_mod_edit) (densities vol_mod_object) = Inr True
         \<and> torch_eq_all_f (features vol_mod_edit) (features vol_mod_object) = Inr True"
  then have "build_graph get_segment randperm (sigmoid_f (features vol_mod_edit))
       (densities vol_mod_edit) (attn vol_mod_edit) (attn vol_mod_object) K sigma
       = (Inl RuntimeError, empty_graph)"
    using build_graph_empty_max [OF assms] by blast
  with h show "get_edit_region get_segment randperm vol_mod_edit vol_mod_object vol_mod_output K sigma
           = (Some RuntimeError, vol_mod_output, Some empty_graph)"
    by (simp add: get_edit_region_def)
qed

lemma empty_mod_facts:
  "active_idx (densities empty_mod) = []"
  "no_unit_axis (densities empty_mod)"
  "sshape (attn empty_mod) = sshape (densities empty_mod)"
  by (simp_all add: empty_mod_def cube2_empty cube2_ax)

theorem empty_active_set_raises_witness:
  "active_idx (densities empty_mod) = []
   \<and> no_unit_axis (densities empty_mod)
   \<and> sshape (attn empty_mod) = sshape (densities empty_mod)
   \<and> torch_eq_all (densities empty_mod) (densities empty_mod) = Inr True
   \<and> torch_eq_all_f (features empty_mod) (features empty_mod) = Inr True
   \<and> get_edit_region slab_segment id_perm empty_mod empty_mod full_mod 5 (1 / 10)
       = (Some RuntimeError, full_mod, Some empty_graph)"
proof -
  note f = empty_mod_facts
  note t = torch_eq_all_refl [of "densities empty_mod"] torch_eq_all_f_refl [of "features empty_mod"]
  from empty_active_set_raises [OF f(1), of slab_segment id_perm empty_mod 5 "1 / 10" full_mod]
  have "get_edit_region slab_segment id_perm empty_mod empty_mod full_mod 5 (1 / 10)
       = (Some RuntimeError, full_mod, Some empty_graph)"
    using f t by blast
  with f t show ?thesis by (intro conjI)
qed

text \<open>
  C3 (as stated, refuted). On the 2 x 2 x 2 grid with density zero everywhere, no voxel is
  in the mask, and both \<^verbatim>\<open>build_graph\<close> and \<^verbatim>\<open>get_edit_region\<close> raise
  \<^verbatim>\<open>RuntimeError\<close>; the attention of the output model is not written.
\<close>

theorem empty_active_set_exception:
  "active_idx (densities empty_mod) = []
   \<and> fst (build_graph slab_segment id_perm (sigmoid_f (features empty_mod)) (densities empty_mod)
        (attn empty_mod) (attn empty_mod) 5 (1 / 10)) = Inl RuntimeError
   \<and> get_edit_region slab_segment id_perm empty_mod empty_mod empty_mod 5 (1 / 10)
       = (Some RuntimeError, empty_mod, Some empty_graph)"
proof -
  note f = empty_mod_facts
  have b: "build_graph slab_segment id_perm (sigmoid_f (features empty_mod)) (densities empty_mod)
        (attn empty_mod) (attn empty_mod) 5 (1 / 10) = (Inl RuntimeError, empty_graph)"
    by (rule build_graph_empty_max [OF f(1,2,3,3)])
  then have "get_edit_region slab_segment id_perm empty_mod empty_mod empty_mod 5 (1 / 10)
       = (Some RuntimeError, empty_mod, Some empty_graph)"
    by (simp add: get_edit_region_def torch_eq_all_refl torch_eq_all_f_refl)
  with f(1) b show ?thesis by simp
qed

subsection \<open>Mismatched shapes\<close>








subsection \<open>The grid written to the output model\<close>

lemma py_index_in: "0 \<le> i \<Longrightarrow> i < int n \<Longrightarrow> py_index n i = Some i"
  by (simp add: py_index_def)

lemma write_edit_ids_value:
  assumes "\<forall>c\<in>set cs. in_grid g c"
  shows "\<exists>g'. write_edit_ids cs g = Inr g' \<and> sshape g' = sshape g
     \<and> (\<forall>p q r. sval g' p q r = (if (p, q, r) \<in> set cs then 0 else sval g p q r))"
  using assms
proof (induction cs arbitrary: g)
  case Nil
  then show ?case by simp
next
  case (Cons c cs)
  obtain a b e where c: "c = (a, b, e)" by (cases c)
  let ?g = "g\<lparr>sval := \<lambda>p q r. if (p, q, r) = (a, b, e) then 0.0 else sval g p q r\<rparr>"
  from Cons.prems have in1: "in_grid g (a, b, e)" by (simp add: c)
  then have py: "py_index (sx g) a = Some a" "py_index (sy g) b = Some b" "py_index (sz g) e = Some e"
    by (simp_all add: in_grid_def py_index_in)
  from Cons.prems have "\<forall>c\<in>set cs. in_grid ?g c" by (simp add: in_grid_def)
  from Cons.IH [OF this] obtain g' where
    g': "write_edit_ids cs ?g = Inr g'" "sshape g' = sshape ?g"
    "\<forall>p q r. sval g' p q r = (if (p, q, r) \<in> set cs then 0 else sval ?g p q r)"
    by blast
  have w: "write_edit_ids (c # cs) g = Inr g'"
    using g'(1) py by (simp add: c)
  have s: "sshape g' = sshape g" using g'(2) by (simp add: sshape_def)
  have v: "\<forall>p q r. sval g' p q r = (if (p, q, r) \<in> set (c # cs) then 0 else sval g p q r)"
    using g'(3) by (auto simp: c)
  from w s v show ?case by blast
qed

lemma in_grid_shape: "sshape g = sshape g' \<Longrightarrow> in_grid g = in_grid g'"
  by (rule ext) (simp add: in_grid_def sshape_def)

lemma set_and_visualize_value:
  assumes r: "set_and_visualize_refined_grid vol_mod_edit vol_mod_object vol_mod_output ids idxs
              = (None, out)"
    and inb: "\<forall>c\<in>set idxs. in_grid (attn vol_mod_edit) c"
  shows "sval (attn out) a b c =
     (if (a, b, c) \<in> set (map snd (filter (\<lambda>p. fst p = 0) (zip ids idxs))) then 0
      else if non_zero_densities (densities vol_mod_edit) (a, b, c) then - 10 else - 20)"
proof -
  let ?edit_ids = "map snd (filter (\<lambda>p. fst p = 0) (zip ids idxs))"
  let ?g3 = "masked_fill (full_like (attn vol_mod_edit) (- 20.0))
               (non_zero_densities (densities vol_mod_edit)) (- 10.0)"
  have sub: "set ?edit_ids \<subseteq> set idxs"
    by (auto dest: set_zip_rightD)
  have "in_grid ?g3 = in_grid (attn vol_mod_edit)"
    by (rule in_grid_shape) (simp add: sshape_def masked_fill_def full_like_def)
  moreover have "\<forall>c\<in>set ?edit_ids. in_grid (attn vol_mod_edit) c"
    using inb sub by blast
  ultimately have "\<forall>c\<in>set ?edit_ids. in_grid ?g3 c"
    by simp
  from write_edit_ids_value [OF this] obtain g4 where
    g4: "write_edit_ids ?edit_ids ?g3 = Inr g4"
    "\<forall>p q r. sval g4 p q r = (if (p, q, r) \<in> set ?edit_ids then 0 else sval ?g3 p q r)"
    by blast
  from r g4(1) have "attn out = g4"
    by (auto simp: set_and_visualize_refined_grid_def Let_def split: if_splits option.splits)
  then show ?thesis
    using g4(2) by (simp add: masked_fill_def full_like_def)
qed

lemma set_and_visualize_returns:
  assumes "no_unit_axis (densities vol_mod_edit)"
    and "sshape (attn vol_mod_object) = sshape (attn vol_mod_edit)"
    and "sshape (densities vol_mod_edit) = sshape (attn vol_mod_edit)"
    and "length ids = length idxs"
    and inb: "\<forall>c\<in>set idxs. in_grid (attn vol_mod_edit) c"
  shows "fst (set_and_visualize_refined_grid vol_mod_edit vol_mod_object vol_mod_output ids idxs) = None"
proof -
  let ?edit_ids = "map snd (filter (\<lambda>p. fst p = 0) (zip ids idxs))"
  let ?g3 = "masked_fill (full_like (attn vol_mod_edit) (- 20.0))
               (non_zero_densities (densities vol_mod_edit)) (- 10.0)"
  have sub: "set ?edit_ids \<subseteq> set idxs"
    by (auto dest: set_zip_rightD)
  have "in_grid ?g3 = in_grid (attn vol_mod_edit)"
    by (rule in_grid_shape) (simp add: sshape_def masked_fill_def full_like_def)
  moreover have "\<forall>c\<in>set ?edit_ids. in_grid (attn vol_mod_edit) c"
    using inb sub by blast
  ultimately have "\<forall>c\<in>set ?edit_ids. in_grid ?g3 c"
    by simp
  from write_edit_ids_value [OF this] obtain g4 where
    g4: "write_edit_ids ?edit_ids ?g3 = Inr g4" by blast
  from assms(1) have z: "\<not> (sx (densities vol_mod_edit) = 0 \<or> sy (densities vol_mod_edit) = 0
         \<or> sz (densities vol_mod_edit) = 0)"
    by (auto simp: no_unit_axis_def)
  from assms(2) have b: "bshape (attn vol_mod_edit) (attn vol_mod_object) = Some (sshape (attn vol_mod_edit))"
    by (simp add: bshape_def bdim_def sshape_def)
  show ?thesis
    using z b assms(3,4) g4
    by (simp add: set_and_visualize_refined_grid_def Let_def sshape_def full_like_def)
qed

text \<open>
  C5 (amended). The grid that \<^verbatim>\<open>set_and_visualize_refined_grid\<close> assigns last to the
  attention of the output model holds 0 at the coordinates of the nodes labelled EDIT
  (segment 0), -10 at every other voxel of the mask, and -20 at the voxels outside the
  mask. The first grid it assigns (0 where the edit attention exceeds the object
  attention, -20 elsewhere) is overwritten.
\<close>

theorem output_grid_sentinels:
  assumes "set_and_visualize_refined_grid vol_mod_edit vol_mod_object vol_mod_output ids idxs
              = (None, out)"
    and "\<forall>c\<in>set idxs. in_grid (attn vol_mod_edit) c"
  shows "sval (attn out) a b c =
     (if (a, b, c) \<in> set (map snd (filter (\<lambda>p. fst p = 0) (zip ids idxs))) then 0
      else if non_zero_densities (densities vol_mod_edit) (a, b, c) then - 10 else - 20)"
  using assms by (rule set_and_visualize_value)

lemma idx_grid_222:
  "idx_grid 2 2 2 = [(0, 0, 0), (0, 0, 1), (0, 1, 0), (0, 1, 1), (1, 0, 0), (1, 0, 1), (1, 1, 0), (1, 1, 1)]"
  by (simp add: idx_grid_def upto.simps)

lemma cube2_edit_ids:
  "map snd (filter (\<lambda>p. fst p = 0) (zip cube2_ids (idx_grid 2 2 2))) = [(0, 0, 0)]"
  by (simp add: idx_grid_222 cube2_ids_def)

lemma cube2_idxs_in: "\<forall>c\<in>set (idx_grid 2 2 2). in_grid (attn full_mod) c"
  by (simp add: idx_grid_222 in_grid_def full_mod_def cube2_def)

lemma full_mod_returns:
  "fst (set_and_visualize_refined_grid full_mod full_mod full_mod cube2_ids (idx_grid 2 2 2)) = None"
proof (rule set_and_visualize_returns)
  show "no_unit_axis (densities full_mod)" by (simp add: full_mod_def cube2_ax)
  show "sshape (densities full_mod) = sshape (attn full_mod)"
    by (simp add: full_mod_def sshape_def cube2_def)
  show "length cube2_ids = length (idx_grid 2 2 2)" by (simp add: cube2_ids_def length_idx_grid)
  show "\<forall>c\<in>set (idx_grid 2 2 2). in_grid (attn full_mod) c" by (rule cube2_idxs_in)
qed simp

lemma full_mod_result:
  "set_and_visualize_refined_grid full_mod full_mod full_mod cube2_ids (idx_grid 2 2 2)
     = (None, snd (set_and_visualize_refined_grid full_mod full_mod full_mod cube2_ids (idx_grid 2 2 2)))"
  using full_mod_returns by (simp add: prod_eq_iff)

lemma full_mod_active: "non_zero_densities (densities full_mod) (1, 1, 1)"
  using cube2_mask [of 1 "(1, 1, 1)"] by (simp add: full_mod_def in_grid_def) (simp add: cube2_def)

theorem output_grid_sentinels_witness:
  "set_and_visualize_refined_grid full_mod full_mod full_mod cube2_ids (idx_grid 2 2 2)
     = (None, snd (set_and_visualize_refined_grid full_mod full_mod full_mod cube2_ids (idx_grid 2 2 2)))
   \<and> set (idx_grid 2 2 2) \<subseteq> Collect (in_grid (attn full_mod))
   \<and> sval (attn (snd (set_and_visualize_refined_grid full_mod full_mod full_mod cube2_ids
         (idx_grid 2 2 2)))) 0 0 0 = 0
   \<and> sval (attn (snd (set_and_visualize_refined_grid full_mod full_mod full_mod cube2_ids
         (idx_grid 2 2 2)))) 1 1 1 = - 10"
proof -
  note w = output_grid_sentinels [OF full_mod_result cube2_idxs_in]
  have a: "sval (attn (snd (set_and_visualize_refined_grid full_mod full_mod full_mod cube2_ids
         (idx_grid 2 2 2)))) 0 0 0 = 0"
    using w [of 0 0 0] by (simp add: cube2_edit_ids)
  have b: "sval (attn (snd (set_and_visualize_refined_grid full_mod full_mod full_mod cube2_ids
         (idx_grid 2 2 2)))) 1 1 1 = - 10"
    using w [of 1 1 1] full_mod_active by (simp add: cube2_edit_ids)
  have c: "set (idx_grid 2 2 2) \<subseteq> Collect (in_grid (attn full_mod))"
    using cube2_idxs_in by blast
  from full_mod_result c a b show ?thesis by (intro conjI)
qed

text \<open>
  C5 (as stated, refuted). On the 2 x 2 x 2 grid with density everywhere, node 7 at voxel
  \<open>(1, 1, 1)\<close> is labelled OBJECT; in the grid assigned to the attention of the output
  model that voxel holds -10, not the background value -20.
\<close>

theorem output_grid_holds_unselected_sentinel:
  "fst (set_and_visualize_refined_grid full_mod full_mod full_mod cube2_ids (idx_grid 2 2 2)) = None
   \<and> cube2_ids ! 7 = 1 \<and> idx_grid 2 2 2 ! 7 = (1, 1, 1)
   \<and> sval (attn (snd (set_and_visualize_refined_grid full_mod full_mod full_mod cube2_ids
         (idx_grid 2 2 2)))) 1 1 1 = - 10"
proof -
  have a: "cube2_ids ! 7 = 1" by (simp add: cube2_ids_def)
  have b: "idx_grid 2 2 2 ! 7 = (1, 1, 1)" by (simp add: idx_grid_222)
  have c: "sval (attn (snd (set_and_visualize_refined_grid full_mod full_mod full_mod cube2_ids
         (idx_grid 2 2 2)))) 1 1 1 = - 10"
    using set_and_visualize_value [OF full_mod_result cube2_idxs_in, of 1 1 1] full_mod_active
    by (simp add: cube2_edit_ids)
  from full_mod_returns a b c show ?thesis by (intro conjI)
qed

end
